theory Spec2Isabelle
  imports Main "HOL-Library.Sublist"
begin

section \<open>Feed selection (pages/Index: \<open>toggleFeed\<close>)\<close>

text \<open>
  The page component keeps the ids of the active feeds in an array, the index of the
  feed on display, and publishes toasts. \<open>toggleFeed\<close> reads the array of the current
  render and updates it through \<open>setActiveFeeds\<close>; every call runs on a freshly rendered
  component, so the array it reads is the current one.
\<close>

record toast =
  title :: string
  description :: string
  destructive :: bool

record index_page =
  activeFeeds :: "string list"
  currentFeedIndex :: nat
  page_toasts :: "toast list"

definition cannot_deactivate_toast :: toast where
  "cannot_deactivate_toast =
     \<lparr>title = ''Cannot deactivate'',
      description = ''At least one feed must be active'',
      destructive = True\<rparr>"

definition maximum_feeds_toast :: toast where
  "maximum_feeds_toast =
     \<lparr>title = ''Maximum feeds reached'',
      description = ''You can have a maximum of 5 active feeds'',
      destructive = True\<rparr>"

definition toggleFeed :: "string \<Rightarrow> index_page \<Rightarrow> index_page" where
  "toggleFeed fid p =
     (if fid \<in> set (activeFeeds p) then
        (if length (activeFeeds p) = 1
         then p\<lparr>page_toasts := page_toasts p @ [cannot_deactivate_toast]\<rparr>
         else p\<lparr>activeFeeds := filter (\<lambda>feedId. feedId \<noteq> fid) (activeFeeds p),
                currentFeedIndex := 0\<rparr>)
      else
        (if length (activeFeeds p) \<ge> 5
         then p\<lparr>page_toasts := page_toasts p @ [maximum_feeds_toast]\<rparr>
         else p\<lparr>activeFeeds := activeFeeds p @ [fid],
                currentFeedIndex := 0\<rparr>))"

text \<open>
  The toggles the property speaks of: one that would deactivate the last active feed,
  and one that would activate a sixth feed.
\<close>

definition deactivates_last :: "string \<Rightarrow> index_page \<Rightarrow> bool" where
  "deactivates_last fid p = (fid \<in> set (activeFeeds p) \<and> length (activeFeeds p) = 1)"

definition activates_sixth :: "string \<Rightarrow> index_page \<Rightarrow> bool" where
  "activates_sixth fid p = (fid \<notin> set (activeFeeds p) \<and> length (activeFeeds p) = 5)"

text \<open>
  The state after the mount effect (\<open>setActiveFeeds(["1"])\<close>), and the states a sequence
  of toggles reaches from it.
\<close>

definition mounted_page :: index_page where
  "mounted_page = \<lparr>activeFeeds = [''1''], currentFeedIndex = 0, page_toasts = []\<rparr>"

definition feeds_ok :: "index_page \<Rightarrow> bool" where
  "feeds_ok p = (distinct (activeFeeds p) \<and> 1 \<le> length (activeFeeds p) \<and> length (activeFeeds p) \<le> 5)"

section \<open>Strings and regular expressions of the platform\<close>

text \<open>
  Locators are ASCII text (paths and URLs), held as \<open>string\<close>. The string methods the
  components call are those of the list library, with the receiver first as in the
  source: \<open>s.startsWith(t)\<close>, \<open>s.endsWith(t)\<close>, \<open>s.includes(t)\<close>.
\<close>

definition startsWith :: "string \<Rightarrow> string \<Rightarrow> bool" where
  "startsWith s t = prefix t s"

definition endsWith :: "string \<Rightarrow> string \<Rightarrow> bool" where
  "endsWith s t = suffix t s"

definition includes_str :: "string \<Rightarrow> string \<Rightarrow> bool" where
  "includes_str s t = sublist t s"

definition upper_letters :: string where
  "upper_letters = ''ABCDEFGHIJKLMNOPQRSTUVWXYZ''"

definition lower_letters :: string where
  "lower_letters = ''abcdefghijklmnopqrstuvwxyz''"

definition digits :: string where
  "digits = ''0123456789''"

definition lower_char :: "char \<Rightarrow> char" where
  "lower_char c = (case map_of (zip upper_letters lower_letters) c of Some d \<Rightarrow> d | None \<Rightarrow> c)"

definition toLowerCase :: "string \<Rightarrow> string" where
  "toLowerCase s = map lower_char s"

text \<open>
  Regular expressions, as far as the component's pattern needs them: a character class
  is the list of its characters, \<open>(?:r)?\<close> is \<open>rx_opt\<close>, \<open>r+\<close> is \<open>rx_plus\<close>,
  \<open>r{1,3}\<close> is \<open>rx_one_to_three\<close> and \<open>r{3}\<close> is \<open>rx_thrice\<close>. \<open>RegExp.test\<close> asks
  whether some match exists, so the matcher decides membership in the pattern's language
  (by derivatives); the order in which a backtracking engine tries the alternatives does
  not change that answer.
\<close>

datatype rx = Nul | Eps | Cls string | Seq rx rx | Alt rx rx | Star rx

fun nullable :: "rx \<Rightarrow> bool" where
  "nullable Nul = False"
| "nullable Eps = True"
| "nullable (Cls cs) = False"
| "nullable (Seq a b) = (nullable a \<and> nullable b)"
| "nullable (Alt a b) = (nullable a \<or> nullable b)"
| "nullable (Star a) = True"

fun deriv :: "char \<Rightarrow> rx \<Rightarrow> rx" where
  "deriv c Nul = Nul"
| "deriv c Eps = Nul"
| "deriv c (Cls cs) = (if c \<in> set cs then Eps else Nul)"
| "deriv c (Seq a b) =
     (if nullable a then Alt (Seq (deriv c a) b) (deriv c b) else Seq (deriv c a) b)"
| "deriv c (Alt a b) = Alt (deriv c a) (deriv c b)"
| "deriv c (Star a) = Seq (deriv c a) (Star a)"

fun rx_matches :: "rx \<Rightarrow> string \<Rightarrow> bool" where
  "rx_matches r [] = nullable r"
| "rx_matches r (c # cs) = rx_matches (deriv c r) cs"

definition rx_opt :: "rx \<Rightarrow> rx" where
  "rx_opt r = Alt r Eps"

definition rx_plus :: "rx \<Rightarrow> rx" where
  "rx_plus r = Seq r (Star r)"

definition rx_one_to_three :: "rx \<Rightarrow> rx" where
  "rx_one_to_three r = Seq r (rx_opt (Seq r (rx_opt r)))"

definition rx_thrice :: "rx \<Rightarrow> rx" where
  "rx_thrice r = Seq r (Seq r r)"

text \<open>\<open>\w\<close> is \<open>[A-Za-z0-9_]\<close>; \<open>\b\<close> holds between a word character and a non-word
  character, the two ends of the input counting as non-word.\<close>

definition word_chars :: string where
  "word_chars = upper_letters @ lower_letters @ digits @ ''_''"

definition is_word_char :: "char \<Rightarrow> bool" where
  "is_word_char c = (c \<in> set word_chars)"

definition word_boundary :: "bool \<Rightarrow> string \<Rightarrow> bool" where
  "word_boundary prev_is_word rest =
     (prev_is_word \<noteq> (case rest of [] \<Rightarrow> False | c # _ \<Rightarrow> is_word_char c))"

text \<open>
  \<open>/\b BODY $/.test(s)\<close>: at some position of \<open>s\<close> a word boundary holds and \<open>BODY\<close>
  matches the whole rest of the input (no flag is set, so \<open>$\<close> is the end of \<open>s\<close>).
  The first argument says whether the character before the position is a word character.
\<close>

fun test_boundary_to_end :: "rx \<Rightarrow> bool \<Rightarrow> string \<Rightarrow> bool" where
  "test_boundary_to_end body prev_is_word [] =
     (word_boundary prev_is_word [] \<and> rx_matches body [])"
| "test_boundary_to_end body prev_is_word (c # cs) =
     ((word_boundary prev_is_word (c # cs) \<and> rx_matches body (c # cs))
      \<or> test_boundary_to_end body (is_word_char c) cs)"

text \<open>
  \<open>s.match(r) !== null\<close> for a pattern without anchors: \<open>r\<close> matches some stretch of \<open>s\<close>,
  that is, a beginning of what is left of \<open>s\<close> at some position.
\<close>

fun rx_matches_beginning :: "rx \<Rightarrow> string \<Rightarrow> bool" where
  "rx_matches_beginning r [] = nullable r"
| "rx_matches_beginning r (c # cs) = (nullable r \<or> rx_matches_beginning (deriv c r) cs)"

fun rx_search :: "rx \<Rightarrow> string \<Rightarrow> bool" where
  "rx_search r [] = nullable r"
| "rx_search r (c # cs) = (rx_matches_beginning r (c # cs) \<or> rx_search r cs)"

section \<open>Feed playback (components/VideoFeed)\<close>

subsection \<open>Classification of the locator\<close>

text \<open>
  The pattern of the classification effect,
  \<^verbatim>\<open>\b(?:[0-9]{1,3}\.){3}[0-9]{1,3}(?::[0-9]+)?(?:\/[\w\/\.\_\-\~\:\?\#\[\]\@\!\$\&\'\(\)\*\+\,\;\=]*)?$\<close>
\<close>

definition path_chars :: string where
  "path_chars = word_chars @ ''/._-~:?#[]@!$&'' @ [CHR 0x27] @ ''()*+,;=''"

definition ip_camera_body :: rx where
  "ip_camera_body =
     Seq (rx_thrice (Seq (rx_one_to_three (Cls digits)) (Cls ''.'')))
      (Seq (rx_one_to_three (Cls digits))
        (Seq (rx_opt (Seq (Cls '':'') (rx_plus (Cls digits))))
             (rx_opt (Seq (Cls ''/'') (Star (Cls path_chars))))))"

definition ip_camera_test :: "string \<Rightarrow> bool" where
  "ip_camera_test url = test_boundary_to_end ip_camera_body False url"

definition isVideoFile :: "string \<Rightarrow> bool" where
  "isVideoFile url =
     (endsWith url ''.mp4'' \<or> endsWith url ''.webm'' \<or> endsWith url ''.mov''
      \<or> endsWith url ''.avi'' \<or> endsWith url ''.mkv'')"

definition isStream :: "string \<Rightarrow> bool" where
  "isStream url =
     (includes_str url ''rtsp://'' \<or> includes_str url ''rtmp://''
      \<or> includes_str url ''http://'' \<or> includes_str url ''https://''
      \<or> includes_str url ''stream'' \<or> includes_str url ''video_feed''
      \<or> ip_camera_test url)"

text \<open>
  The component state (the \<open>useState\<close> cells of \<open>VideoFeed\<close>) and the calls it has made
  on the video element, oldest first.
\<close>

datatype sink_command = Load | Play | Pause

record video_feed =
  isPlaying :: bool
  isVideoFeed :: bool
  isLiveStream :: bool
  hasError :: bool
  errorDetails :: string
  isLoading :: bool
  retryCount :: nat
  sink :: "sink_command list"

definition initial_feed :: video_feed where
  "initial_feed =
     \<lparr>isPlaying = False, isVideoFeed = True, isLiveStream = False, hasError = False,
      errorDetails = [], isLoading = True, retryCount = 0, sink = []\<rparr>"

text \<open>
  \<open>renderVideoContent\<close> puts the video element on the page unless \<open>hasError\<close> holds or
  the feed is not a video feed; \<open>videoRef.current\<close> is that element, read by an effect
  after the render was committed.
\<close>

definition video_mounted :: "video_feed \<Rightarrow> bool" where
  "video_mounted s = (\<not> hasError s \<and> isVideoFeed s)"

text \<open>A rejection of \<open>play()\<close>: the fields \<open>getErrorMessage\<close> reads, each possibly absent.\<close>

record js_error =
  err_name :: "string option"
  err_message :: "string option"
  err_code :: "nat option"

definition unknown_camera_error :: string where
  "unknown_camera_error =
     ''Unknown error loading camera feed. Check that the camera is powered on and the URL is correct.''"

definition getErrorMessage :: "js_error \<Rightarrow> string" where
  "getErrorMessage e =
     (if err_name e = Some ''NotSupportedError'' then
        ''The video format is not supported by your browser, or the stream might be offline.''
      else if err_name e = Some ''SecurityError'' then
        ''Security error: Camera access might be blocked due to CORS. Try enabling CORS on your camera server.''
      else if err_name e = Some ''NetworkError''
           \<or> (case err_message e of Some m \<Rightarrow> includes_str m ''network'' | None \<Rightarrow> False) then
        ''Network error: Unable to connect to the camera stream. Check that the IP address is correct and accessible from your current network.''
      else if err_name e = Some ''NotAllowedError'' then
        ''Permission denied: Browser prevented autoplay.''
      else if err_code e = Some 2 then
        ''Network error: The camera might be on a different network or behind a firewall.''
      else if err_code e = Some 3 then
        ''Decoding error: The video format might not be compatible with your browser.''
      else if err_code e = Some 4 then
        ''Format not supported: The camera stream format is not compatible or the URL might be incorrect.''
      else (case err_message e of
              Some m \<Rightarrow> if m \<noteq> [] then m else unknown_camera_error
            | None \<Rightarrow> unknown_camera_error))"

text \<open>
  The load effect, keyed on \<open>[feed.id, feed.url, retryCount]\<close>, and the handler of its
  rejected play promise.
\<close>

definition load_effect :: "video_feed \<Rightarrow> video_feed" where
  "load_effect s =
     (let s1 = s\<lparr>hasError := False, errorDetails := [], isLoading := True\<rparr> in
      if video_mounted s then
        (if isPlaying s \<or> isLiveStream s
         then s1\<lparr>sink := sink s @ [Load, Play]\<rparr>
         else s1\<lparr>sink := sink s @ [Load, Pause]\<rparr>)
      else s1)"

definition load_play_rejected :: "js_error \<Rightarrow> video_feed \<Rightarrow> video_feed" where
  "load_play_rejected e s =
     (if err_name e = Some ''NotAllowedError''
      then s\<lparr>isPlaying := False,
             errorDetails := ''Browser prevented autoplay. Click play to start the stream.'',
             hasError := False\<rparr>
      else s\<lparr>isPlaying := False, hasError := True, errorDetails := getErrorMessage e\<rparr>)"

text \<open>
  The classification effect, keyed on \<open>[feed.url]\<close>, and the handler of the rejected
  play promise of its autoplay.
\<close>

definition classification_effect :: "string \<Rightarrow> video_feed \<Rightarrow> video_feed" where
  "classification_effect feed_url s =
     (let url = toLowerCase feed_url;
          video_file = isVideoFile url;
          stream = isStream url;
          s1 = s\<lparr>isVideoFeed := video_file \<or> stream, isLiveStream := stream \<and> \<not> video_file\<rparr>
      in if stream \<and> \<not> video_file \<and> video_mounted s
         then s1\<lparr>isPlaying := True, sink := sink s @ [Play]\<rparr>
         else s1)"

definition stream_autoplay_rejected :: "js_error \<Rightarrow> video_feed \<Rightarrow> video_feed" where
  "stream_autoplay_rejected e s =
     s\<lparr>isPlaying := False, hasError := True, errorDetails := getErrorMessage e\<rparr>"

text \<open>
  The kind of source the component treats the feed as: a live stream is played at once and
  never looped, a video that is not a live stream is looped (\<open>loop={!isLiveStream}\<close>),
  anything else is shown as a background image.
\<close>

datatype SourceKind = StaticImage | FileVideo | LiveStream

definition sourceKind :: "video_feed \<Rightarrow> SourceKind" where
  "sourceKind s =
     (if isLiveStream s then LiveStream else if isVideoFeed s then FileVideo else StaticImage)"

definition classify :: "string \<Rightarrow> SourceKind" where
  "classify locator = sourceKind (classification_effect locator initial_feed)"

text \<open>
  The classification effect of the earlier draft of the component
  (\<^verbatim>\<open>/\d+\.\d+\.\d+\.\d+/\<close> anywhere in the locator, and no test for \<^verbatim>\<open>video_feed\<close>).
\<close>

definition dotted_digits :: rx where
  "dotted_digits =
     Seq (rx_plus (Cls digits))
      (Seq (Cls ''.'')
        (Seq (rx_plus (Cls digits))
          (Seq (Cls ''.'')
            (Seq (rx_plus (Cls digits))
              (Seq (Cls ''.'') (rx_plus (Cls digits)))))))"

definition isStream_draft2 :: "string \<Rightarrow> bool" where
  "isStream_draft2 url =
     (includes_str url ''rtsp://'' \<or> includes_str url ''rtmp://''
      \<or> includes_str url ''http://'' \<or> includes_str url ''https://''
      \<or> includes_str url ''stream''
      \<or> rx_search dotted_digits url)"

definition classify_draft2 :: "string \<Rightarrow> SourceKind" where
  "classify_draft2 locator =
     (let url = toLowerCase locator;
          video_file = isVideoFile url;
          stream = isStream_draft2 url
      in sourceKind (initial_feed\<lparr>isVideoFeed := video_file \<or> stream,
                                   isLiveStream := stream \<and> \<not> video_file\<rparr>))"

subsection \<open>Events of the video element and of the user\<close>

definition handleVideoLoaded :: "video_feed \<Rightarrow> video_feed" where
  "handleVideoLoaded s = s\<lparr>isLoading := False, hasError := False, errorDetails := []\<rparr>"

text \<open>\<open>videoElement.error\<close>, when the element has one: its code and message.\<close>

record media_error =
  me_code :: nat
  me_message :: string

definition handleVideoError :: "media_error option \<Rightarrow> video_feed \<Rightarrow> video_feed" where
  "handleVideoError err s =
     (let errorCode = map_option me_code err;
          errorMessage = map_option me_message err;
          detailedError =
            (if errorCode = Some 1 then ''Loading was aborted''
             else if errorCode = Some 2 then
               ''Network error: The camera might be on a different network or the URL is incorrect''
             else if errorCode = Some 3 then ''Video decoding error or unsupported format''
             else if errorCode = Some 4 then
               ''Video format not supported or camera stream unavailable. Check if the URL endpoint returns a valid video stream.''
             else (case errorMessage of
                     Some m \<Rightarrow> if m \<noteq> [] then m else ''Unknown error loading video''
                   | None \<Rightarrow> ''Unknown error loading video''))
      in s\<lparr>isLoading := False, hasError := True, errorDetails := detailedError\<rparr>)"

definition togglePlayback :: "video_feed \<Rightarrow> video_feed" where
  "togglePlayback s =
     (if video_mounted s then
        (if isPlaying s then s\<lparr>sink := sink s @ [Pause], isPlaying := False\<rparr>
         else s\<lparr>isLoading := True, sink := sink s @ [Play]\<rparr>)
      else s)"

definition toggle_play_resolved :: "video_feed \<Rightarrow> video_feed" where
  "toggle_play_resolved s = s\<lparr>isPlaying := True, hasError := False, errorDetails := []\<rparr>"

definition toggle_play_rejected :: "js_error \<Rightarrow> video_feed \<Rightarrow> video_feed" where
  "toggle_play_rejected e s =
     s\<lparr>isPlaying := False, hasError := True, errorDetails := getErrorMessage e\<rparr>"

definition retryLoading :: "video_feed \<Rightarrow> video_feed" where
  "retryLoading s =
     s\<lparr>retryCount := retryCount s + 1, isLoading := True, hasError := False, errorDetails := []\<rparr>"

text \<open>
  After a render the load effect runs when one of its dependencies differs from the
  render before. A retry is \<open>retryLoading\<close> followed by the render it causes; the feed
  (its id and its locator) is the same in both renders.
\<close>

record feed_data =
  feed_id :: string
  feed_url :: string

definition load_effect_deps :: "feed_data \<Rightarrow> video_feed \<Rightarrow> string \<times> string \<times> nat" where
  "load_effect_deps feed s = (feed_id feed, feed_url feed, retryCount s)"

definition rendered_after :: "feed_data \<Rightarrow> video_feed \<Rightarrow> video_feed \<Rightarrow> video_feed" where
  "rendered_after feed before s =
     (if load_effect_deps feed s \<noteq> load_effect_deps feed before then load_effect s else s)"

definition retry :: "feed_data \<Rightarrow> video_feed \<Rightarrow> video_feed" where
  "retry feed s = rendered_after feed s (retryLoading s)"

section \<open>Detection events (components/Terminal)\<close>

subsection \<open>Values and services of the platform\<close>

text \<open>
  A parsed JSON value. A number is held as the decimal text \<open>Number.prototype.toString\<close>
  renders it with (the text determines the number up to the sign of zero); an object is
  the list of its own properties, each key once.
\<close>

datatype json =
    JNull
  | JBool bool
  | JNum string
  | JStr string
  | JArr "json list"
  | JObj "(string \<times> json) list"

datatype js_exception = TypeError | SyntaxError

text \<open>
  \<open>data.key\<close> for the keys the component reads (\<open>event\<close>, \<open>feedId\<close>, \<open>timestamp\<close>): a
  \<open>TypeError\<close> on \<open>null\<close>, the own property of an object, \<open>undefined\<close> (here \<open>None\<close>)
  otherwise, since no prototype of a parsed value has a property of one of these names.
\<close>

definition get_prop :: "json \<Rightarrow> string \<Rightarrow> js_exception + json option" where
  "get_prop d k =
     (case d of JNull \<Rightarrow> Inl TypeError | JObj kvs \<Rightarrow> Inr (map_of kvs k) | _ \<Rightarrow> Inr None)"

fun truthy :: "json \<Rightarrow> bool" where
  "truthy JNull = False"
| "truthy (JBool b) = b"
| "truthy (JNum n) = (n \<noteq> ''0'')"
| "truthy (JStr s) = (s \<noteq> [])"
| "truthy (JArr xs) = True"
| "truthy (JObj kvs) = True"

text \<open>\<open>v || d\<close>, for a property read \<open>v\<close>.\<close>

definition or_default :: "json option \<Rightarrow> json \<Rightarrow> json" where
  "or_default v d = (case v of Some x \<Rightarrow> if truthy x then x else d | None \<Rightarrow> d)"

definition join_comma :: "string list \<Rightarrow> string" where
  "join_comma ss = (case ss of [] \<Rightarrow> [] | s # rest \<Rightarrow> s @ concat (map (\<lambda>r. '','' @ r) rest))"

text \<open>
  The conversion to a string a template literal applies. An array joins the strings of
  its elements (\<open>null\<close> gives the empty string); an object gives \<^verbatim>\<open>[object Object]\<close>
  unless it has an own property \<open>toString\<close>, which (never callable in a parsed value)
  shadows the inherited method and leaves no way to a primitive: a \<open>TypeError\<close>.
\<close>

fun ToString :: "json \<Rightarrow> js_exception + string"
  and array_items :: "json list \<Rightarrow> js_exception + string list" where
  "ToString JNull = Inr ''null''"
| "ToString (JBool b) = Inr (if b then ''true'' else ''false'')"
| "ToString (JNum n) = Inr n"
| "ToString (JStr s) = Inr s"
| "ToString (JArr xs) =
     (case array_items xs of Inl e \<Rightarrow> Inl e | Inr ss \<Rightarrow> Inr (join_comma ss))"
| "ToString (JObj kvs) =
     (if ''toString'' \<in> set (map fst kvs) then Inl TypeError else Inr ''[object Object]'')"
| "array_items [] = Inr []"
| "array_items (x # xs) =
     (case (if x = JNull then Inr [] else ToString x) of
        Inl e \<Rightarrow> Inl e
      | Inr s \<Rightarrow> (case array_items xs of Inl e \<Rightarrow> Inl e | Inr ss \<Rightarrow> Inr (s # ss)))"

text \<open>
  What the component asks of the platform it runs on: \<open>JSON.parse\<close> (\<open>None\<close> for the
  \<open>SyntaxError\<close>), the \<open>pathname\<close> of \<open>new URL(s)\<close> (\<open>None\<close> for the \<open>TypeError\<close> of an
  invalid URL), the text of \<open>new Date().toLocaleTimeString()\<close>, whether
  \<open>new WebSocket(url)\<close> returns a socket rather than throwing, and
  \<open>window.location.origin\<close>.
\<close>

record platform =
  JSON_parse :: "string \<Rightarrow> json option"
  URL_pathname :: "string \<Rightarrow> string option"
  toLocaleTimeString :: string
  WebSocket_accepts :: "string \<Rightarrow> bool"
  location_origin :: string

subsection \<open>What the component publishes\<close>

text \<open>
  The \<open>detail\<close> of a dispatched \<open>detectionEvent\<close> is \<open>{data}\<close> for a parsed payload, or
  \<open>{data: {event: "Raw Message", message: event.data}}\<close>. A frame of the socket is text or
  binary. Toasts of this component may carry any parsed value as their title.
\<close>

datatype frame_data = TextFrame string | BinaryFrame

datatype detail = Data json | RawMessage frame_data

record notice =
  n_title :: json
  n_description :: string
  n_destructive :: bool

datatype console_error =
    ProcessingDetectionData
  | BodyNotString
  | ParsingWebSocketData
  | WebSocketFailed
  | SettingUpWebSocket

record outputs =
  events :: "detail list"
  toasts :: "notice list"
  console_errors :: "console_error list"

definition dispatch :: "detail \<Rightarrow> 'a outputs_scheme \<Rightarrow> 'a outputs_scheme" where
  "dispatch d out = out\<lparr>events := events out @ [d]\<rparr>"

definition publish :: "notice \<Rightarrow> 'a outputs_scheme \<Rightarrow> 'a outputs_scheme" where
  "publish n out = out\<lparr>toasts := toasts out @ [n]\<rparr>"

definition log_error :: "console_error \<Rightarrow> 'a outputs_scheme \<Rightarrow> 'a outputs_scheme" where
  "log_error e out = out\<lparr>console_errors := console_errors out @ [e]\<rparr>"

text \<open>
  The toast built for a payload, with the generic label of the channel:
  \<^verbatim>\<open>const eventType = data.event || label;\<close>
  \<^verbatim>\<open>toast({title: eventType, description: `Feed ID: ${data.feedId || 'Unknown'} - ${data.timestamp || new Date().toLocaleTimeString()}`})\<close>
\<close>

definition detection_toast :: "platform \<Rightarrow> string \<Rightarrow> json \<Rightarrow> js_exception + notice" where
  "detection_toast pf label d =
     (case get_prop d ''event'' of
        Inl e \<Rightarrow> Inl e
      | Inr ev \<Rightarrow>
         (case get_prop d ''feedId'' of
            Inl e \<Rightarrow> Inl e
          | Inr fid \<Rightarrow>
             (case ToString (or_default fid (JStr ''Unknown'')) of
                Inl e \<Rightarrow> Inl e
              | Inr feed_text \<Rightarrow>
                 (case get_prop d ''timestamp'' of
                    Inl e \<Rightarrow> Inl e
                  | Inr ts \<Rightarrow>
                     (case ToString (or_default ts (JStr (toLocaleTimeString pf))) of
                        Inl e \<Rightarrow> Inl e
                      | Inr time_text \<Rightarrow>
                         Inr \<lparr>n_title = or_default ev (JStr label),
                              n_description = ''Feed ID: '' @ feed_text @ '' - '' @ time_text,
                              n_destructive = False\<rparr>)))))"

subsection \<open>The fetch override\<close>

datatype request_info = InputString string | InputURL string | InputRequest string

fun input_url :: "request_info \<Rightarrow> string" where
  "input_url (InputString s) = s"
| "input_url (InputURL href) = href"
| "input_url (InputRequest url) = url"

datatype request_body = StringBody string | OtherBody | NoBody

record request_init =
  init_method :: "string option"
  init_body :: request_body

record response =
  resp_status :: nat
  resp_body :: string
  resp_content_type :: string

text \<open>
  What the caller of \<open>fetch\<close> gets: the response the override made up, the promise of the
  original \<open>fetch\<close> applied to the same \<open>input\<close> and \<open>init\<close>, or a rejection by an
  exception thrown in the override itself.
\<close>

datatype fetch_outcome =
    Synthesized response
  | Forwarded request_info "request_init option"
  | Rejected js_exception

definition success_response :: response where
  \<open>success_response =
     \<lparr>resp_status = 200, resp_body = ''{"success":true}'',
      resp_content_type = ''application/json''\<rparr>\<close>

text \<open>
  The address the override parses: \<^verbatim>\<open>url.startsWith('http') ? url : origin + url\<close>; the test
  \<^verbatim>\<open>init?.method === 'POST'\<close>; and \<open>init.body\<close>, read only after that test succeeded.
\<close>

definition request_target :: "platform \<Rightarrow> request_info \<Rightarrow> string" where
  "request_target pf input =
     (if startsWith (input_url input) ''http'' then input_url input
      else location_origin pf @ input_url input)"

definition is_post :: "request_init option \<Rightarrow> bool" where
  "is_post init = (case init of Some i \<Rightarrow> init_method i = Some ''POST'' | None \<Rightarrow> False)"

definition body_of :: "request_init option \<Rightarrow> request_body" where
  "body_of init = (case init of Some i \<Rightarrow> init_body i | None \<Rightarrow> NoBody)"

text \<open>
  \<^verbatim>\<open>urlObj.pathname === endpointObj.pathname && init?.method === 'POST'\<close>, after the two
  \<open>new URL\<close>, either of which may throw.
\<close>

definition matches_endpoint ::
  "platform \<Rightarrow> string \<Rightarrow> request_info \<Rightarrow> request_init option \<Rightarrow> js_exception + bool" where
  "matches_endpoint pf endpoint input init =
     (case URL_pathname pf (request_target pf input) of
        None \<Rightarrow> Inl TypeError
      | Some url_path \<Rightarrow>
         (case URL_pathname pf (location_origin pf @ endpoint) of
            None \<Rightarrow> Inl TypeError
          | Some endpoint_path \<Rightarrow> Inr (url_path = endpoint_path \<and> is_post init)))"

definition fetch_override ::
  "platform \<Rightarrow> string \<Rightarrow> request_info \<Rightarrow> request_init option \<Rightarrow> 'a outputs_scheme
     \<Rightarrow> fetch_outcome \<times> 'a outputs_scheme" where
  "fetch_override pf endpoint input init out =
     (case matches_endpoint pf endpoint input init of
        Inl e \<Rightarrow> (Rejected e, out)
      | Inr False \<Rightarrow> (Forwarded input init, out)
      | Inr True \<Rightarrow>
         (case body_of init of
            StringBody body \<Rightarrow>
              (case JSON_parse pf body of
                 None \<Rightarrow> (Forwarded input init, log_error ProcessingDetectionData out)
               | Some data \<Rightarrow>
                  (case detection_toast pf ''Detection event'' data of
                     Inl e \<Rightarrow>
                       (Forwarded input init,
                        log_error ProcessingDetectionData (dispatch (Data data) out))
                   | Inr n \<Rightarrow>
                       (Synthesized success_response, publish n (dispatch (Data data) out))))
          | OtherBody \<Rightarrow> (Forwarded input init, log_error BodyNotString out)
          | NoBody \<Rightarrow> (Forwarded input init, log_error BodyNotString out)))"

text \<open>
  The payloads the override can process: a string that parses and whose toast can be
  built.
\<close>

definition processable :: "platform \<Rightarrow> request_init option \<Rightarrow> bool" where
  "processable pf init =
     (case body_of init of
        StringBody body \<Rightarrow>
          (case JSON_parse pf body of
             Some data \<Rightarrow>
               (case detection_toast pf ''Detection event'' data of
                  Inr n \<Rightarrow> True
                | Inl e \<Rightarrow> False)
           | None \<Rightarrow> False)
      | OtherBody \<Rightarrow> False
      | NoBody \<Rightarrow> False)"

text \<open>A request is intercepted when the override answers it instead of the network.\<close>

fun intercepted :: "fetch_outcome \<Rightarrow> bool" where
  "intercepted (Synthesized r) = True"
| "intercepted (Forwarded input init) = False"
| "intercepted (Rejected e) = False"

text \<open>
  The URL a request goes to, for the two kinds of address whose resolution needs nothing
  but the origin of the page (a page without a \<open>base\<close> element): an absolute \<open>http\<close> or
  \<open>https\<close> URL is the URL itself, and a path from the root of the site (one \<^verbatim>\<open>/\<close>, then
  letters, digits and \<^verbatim>\<open>_ / . - ~ ? = & %\<close>), given as a string, is the origin followed by
  the path. Every other address (a path relative to the page, \<^verbatim>\<open>//host/path\<close>, another
  scheme) is resolved against the base URL of the document, which the override does not
  read: \<open>None\<close>.
\<close>

definition absolute_http :: "string \<Rightarrow> bool" where
  "absolute_http s = (startsWith s ''http://'' \<or> startsWith s ''https://'')"

definition root_path_chars :: string where
  "root_path_chars = word_chars @ ''/.-~?=&%''"

definition root_path :: "string \<Rightarrow> bool" where
  "root_path s =
     (startsWith s ''/'' \<and> \<not> startsWith s ''//'' \<and> list_all (\<lambda>c. c \<in> set root_path_chars) s)"

definition request_url :: "platform \<Rightarrow> request_info \<Rightarrow> string option" where
  "request_url pf input =
     (if absolute_http (input_url input) then Some (input_url input)
      else (case input of
              InputString s \<Rightarrow> if root_path s then Some (location_origin pf @ s) else None
            | InputURL href \<Rightarrow> None
            | InputRequest url \<Rightarrow> None))"

subsection \<open>The socket\<close>

text \<open>
  \<open>ws.onmessage\<close>. \<open>JSON.parse\<close> of a binary frame reads the text \<^verbatim>\<open>[object Blob]\<close> (or
  \<^verbatim>\<open>[object ArrayBuffer]\<close>), which is no JSON.
\<close>

definition parse_frame :: "platform \<Rightarrow> frame_data \<Rightarrow> json option" where
  "parse_frame pf frame = (case frame of TextFrame s \<Rightarrow> JSON_parse pf s | BinaryFrame \<Rightarrow> None)"

definition ws_onmessage :: "platform \<Rightarrow> frame_data \<Rightarrow> 'a outputs_scheme \<Rightarrow> 'a outputs_scheme" where
  "ws_onmessage pf frame out =
     (case parse_frame pf frame of
        None \<Rightarrow> dispatch (RawMessage frame) (log_error ParsingWebSocketData out)
      | Some data \<Rightarrow>
         (case detection_toast pf ''WebSocket event'' data of
            Inl e \<Rightarrow>
              dispatch (RawMessage frame)
                (log_error ParsingWebSocketData (dispatch (Data data) out))
          | Inr n \<Rightarrow> publish n (dispatch (Data data) out)))"

text \<open>
  A \<open>WebSocket\<close> object the effect created: the address it was given, how often \<open>close()\<close>
  was called on it, and which of its handler properties are set.
\<close>

record websocket =
  ws_url :: string
  close_calls :: nat
  onopen_set :: bool
  onmessage_set :: bool
  onerror_set :: bool
  onclose_set :: bool

text \<open>
  The component: what it has published, its state cells (\<open>socket\<close> holds the index of a
  socket), the variable \<open>ws\<close> of the effect run whose cleanup is pending, every socket
  created so far, the pending zero-delay timers (each restores an endpoint), and whether
  the component is mounted. A state update of an unmounted component is dropped.
\<close>

record terminal = outputs +
  apiEndpoint :: string
  wsEndpoint :: string
  wsConnected :: bool
  socket :: "nat option"
  effect_ws :: "nat option"
  sockets :: "websocket list"
  timers :: "string list"
  mounted :: bool

definition initial_terminal :: terminal where
  "initial_terminal =
     \<lparr>events = [], toasts = [], console_errors = [],
      apiEndpoint = ''/detection_output'', wsEndpoint = ''ws://localhost:8080/ws'',
      wsConnected = False, socket = None, effect_ws = None, sockets = [], timers = [],
      mounted = True\<rparr>"

definition setWsConnected :: "bool \<Rightarrow> terminal \<Rightarrow> terminal" where
  "setWsConnected b t = (if mounted t then t\<lparr>wsConnected := b\<rparr> else t)"

definition setSocket :: "nat option \<Rightarrow> terminal \<Rightarrow> terminal" where
  "setSocket v t = (if mounted t then t\<lparr>socket := v\<rparr> else t)"

definition close_socket :: "nat \<Rightarrow> terminal \<Rightarrow> terminal" where
  "close_socket k t =
     (if k < length (sockets t)
      then t\<lparr>sockets := (sockets t)[k := (sockets t ! k)\<lparr>close_calls := close_calls (sockets t ! k) + 1\<rparr>]\<rparr>
      else t)"

text \<open>
  The socket \<open>new WebSocket(url)\<close> returns, once the effect assigned its four handlers.
\<close>

definition fresh_socket :: "string \<Rightarrow> websocket" where
  "fresh_socket url =
     \<lparr>ws_url = url, close_calls = 0, onopen_set = True, onmessage_set = True,
      onerror_set = True, onclose_set = True\<rparr>"

text \<open>The body of the socket effect, keyed on \<open>[wsEndpoint, toast]\<close>, and its cleanup.\<close>

definition ws_effect_setup :: "platform \<Rightarrow> terminal \<Rightarrow> terminal" where
  "ws_effect_setup pf t =
     (if WebSocket_accepts pf (wsEndpoint t)
      then setSocket (Some (length (sockets t)))
             (t\<lparr>sockets := sockets t @ [fresh_socket (wsEndpoint t)],
                 effect_ws := Some (length (sockets t))\<rparr>)
      else log_error SettingUpWebSocket (t\<lparr>effect_ws := None\<rparr>))"

definition ws_effect_cleanup :: "terminal \<Rightarrow> terminal" where
  "ws_effect_cleanup t =
     (case effect_ws t of
        Some k \<Rightarrow> setWsConnected False (setSocket None (close_socket k t))\<lparr>effect_ws := None\<rparr>
      | None \<Rightarrow> t)"

definition mount :: "platform \<Rightarrow> terminal \<Rightarrow> terminal" where
  "mount pf t = ws_effect_setup pf t"

definition unmount :: "terminal \<Rightarrow> terminal" where
  "unmount t = (ws_effect_cleanup t)\<lparr>mounted := False\<rparr>"

text \<open>
  \<open>setWsEndpoint(v)\<close> with the render it causes: when the endpoint changed, the cleanup of
  the last effect run, then the effect with the new endpoint.
\<close>

definition setWsEndpoint :: "platform \<Rightarrow> string \<Rightarrow> terminal \<Rightarrow> terminal" where
  "setWsEndpoint pf v t =
     (if mounted t \<and> v \<noteq> wsEndpoint t
      then ws_effect_setup pf ((ws_effect_cleanup t)\<lparr>wsEndpoint := v\<rparr>)
      else t)"

definition handleConnectToggle :: "platform \<Rightarrow> terminal \<Rightarrow> terminal" where
  "handleConnectToggle pf t =
     (case (wsConnected t, socket t) of
        (True, Some k) \<Rightarrow> setWsConnected False (setSocket None (close_socket k t))
      | _ \<Rightarrow> (setWsEndpoint pf [] t)\<lparr>timers := timers t @ [wsEndpoint t]\<rparr>)"

definition timer_fires :: "platform \<Rightarrow> terminal \<Rightarrow> terminal" where
  "timer_fires pf t =
     (case timers t of
        [] \<Rightarrow> t
      | endpoint # rest \<Rightarrow> setWsEndpoint pf endpoint (t\<lparr>timers := rest\<rparr>))"

text \<open>The handlers of a socket, and the platform calling one of them.\<close>

definition connected_notice :: "string \<Rightarrow> notice" where
  "connected_notice url =
     \<lparr>n_title = JStr ''WebSocket Connected'',
      n_description = ''Connected to '' @ url,
      n_destructive = False\<rparr>"

definition error_notice :: notice where
  "error_notice =
     \<lparr>n_title = JStr ''WebSocket Error'',
      n_description = ''Failed to connect to WebSocket server'',
      n_destructive = True\<rparr>"

definition disconnected_notice :: notice where
  "disconnected_notice =
     \<lparr>n_title = JStr ''WebSocket Disconnected'',
      n_description = ''Connection to WebSocket server closed'',
      n_destructive = False\<rparr>"

definition ws_onopen :: "nat \<Rightarrow> terminal \<Rightarrow> terminal" where
  "ws_onopen k t = publish (connected_notice (ws_url (sockets t ! k))) (setWsConnected True t)"

definition ws_onerror :: "terminal \<Rightarrow> terminal" where
  "ws_onerror t = setWsConnected False (publish error_notice (log_error WebSocketFailed t))"

definition ws_onclose :: "terminal \<Rightarrow> terminal" where
  "ws_onclose t = publish disconnected_notice (setWsConnected False t)"

datatype ws_callback = OpenCb | MessageCb frame_data | ErrorCb | CloseCb

definition deliver :: "platform \<Rightarrow> nat \<Rightarrow> ws_callback \<Rightarrow> terminal \<Rightarrow> terminal" where
  "deliver pf k cb t =
     (if k < length (sockets t) then
        (case cb of
           OpenCb \<Rightarrow> if onopen_set (sockets t ! k) then ws_onopen k t else t
         | MessageCb frame \<Rightarrow> if onmessage_set (sockets t ! k) then ws_onmessage pf frame t else t
         | ErrorCb \<Rightarrow> if onerror_set (sockets t ! k) then ws_onerror t else t
         | CloseCb \<Rightarrow> if onclose_set (sockets t ! k) then ws_onclose t else t)
      else t)"

text \<open>
  The window's \<open>fetch\<close>: the override while the component is mounted, the original
  \<open>fetch\<close> once the cleanup restored it.
\<close>

definition window_fetch ::
  "platform \<Rightarrow> request_info \<Rightarrow> request_init option \<Rightarrow> terminal \<Rightarrow> fetch_outcome \<times> terminal" where
  "window_fetch pf input init t =
     (if mounted t then fetch_override pf (apiEndpoint t) input init t
      else (Forwarded input init, t))"

text \<open>Everything that can happen to a mounted component, and a run of such happenings.\<close>

datatype action =
    SetEndpoint string
  | Toggle
  | TimerFires
  | Callback nat ws_callback
  | Unmount

fun step :: "platform \<Rightarrow> terminal \<Rightarrow> action \<Rightarrow> terminal" where
  "step pf t (SetEndpoint v) = setWsEndpoint pf v t"
| "step pf t Toggle = (if mounted t then handleConnectToggle pf t else t)"
| "step pf t TimerFires = timer_fires pf t"
| "step pf t (Callback k cb) = deliver pf k cb t"
| "step pf t Unmount = (if mounted t then unmount t else t)"

definition run :: "platform \<Rightarrow> action list \<Rightarrow> terminal" where
  "run pf acts = foldl (step pf) (mount pf initial_terminal) acts"

text \<open>The sockets on which \<open>close()\<close> was never called.\<close>

definition open_sockets :: "terminal \<Rightarrow> nat list" where
  "open_sockets t = filter (\<lambda>k. close_calls (sockets t ! k) = 0) [0..<length (sockets t)]"

subsection \<open>What holds of every state of the component\<close>

text \<open>
  Every socket has its four handlers; the socket of the pending cleanup exists; \<open>close()\<close>
  was called on every socket but that one; an unmounted component has no pending cleanup.
\<close>

definition handlers_set :: "websocket \<Rightarrow> bool" where
  "handlers_set w = (onopen_set w \<and> onmessage_set w \<and> onerror_set w \<and> onclose_set w)"

definition wf_terminal :: "terminal \<Rightarrow> bool" where
  "wf_terminal t =
     (list_all handlers_set (sockets t)
      \<and> (\<forall>k. effect_ws t = Some k \<longrightarrow> k < length (sockets t))
      \<and> (\<forall>k < length (sockets t). effect_ws t \<noteq> Some k \<longrightarrow> close_calls (sockets t ! k) \<noteq> 0)
      \<and> (mounted t \<or> effect_ws t = None))"

text \<open>The state between a cleanup and the next effect run: every socket was closed.\<close>

definition all_closed :: "terminal \<Rightarrow> bool" where
  "all_closed t = list_all (\<lambda>w. close_calls w \<noteq> 0) (sockets t)"

subsection \<open>A platform for the examples\<close>

text \<open>Two detection payloads, as the texts a detector posts or sends.\<close>

definition person_payload :: string where
  \<open>person_payload =
     ''{"event":"Person detected","feedId":"1","timestamp":"14:35:22","confidence":0.95}''\<close>

definition vehicle_payload :: string where
  \<open>vehicle_payload = ''{"event":"Vehicle detected","feedId":"2"}''\<close>

text \<open>
  A table that agrees with \<open>JSON.parse\<close> on the texts the examples use, the URL parser on
  plain \<open>http\<close> and \<open>https\<close> addresses (scheme, host, optional decimal port, path; a path
  that is missing is \<^verbatim>\<open>/\<close>), and a browser serving \<^verbatim>\<open>http://localhost:8080\<close>.
\<close>

definition example_JSON_parse :: "string \<Rightarrow> json option" where
  \<open>example_JSON_parse s =
     (if s = ''null'' then Some JNull
      else if s = vehicle_payload then
        Some (JObj [(''event'', JStr ''Vehicle detected''), (''feedId'', JStr ''2'')])
      else if s = person_payload then
        Some (JObj [(''event'', JStr ''Person detected''), (''feedId'', JStr ''1''),
                    (''timestamp'', JStr ''14:35:22''), (''confidence'', JNum ''0.95'')])
      else None)\<close>

definition example_URL_pathname :: "string \<Rightarrow> string option" where
  "example_URL_pathname s =
     (case (if prefix ''http://'' s then Some (drop 7 s)
            else if prefix ''https://'' s then Some (drop 8 s) else None) of
        None \<Rightarrow> None
      | Some rest \<Rightarrow>
         (let authority = takeWhile (\<lambda>c. c \<notin> set ''/?#'') rest;
              after = dropWhile (\<lambda>c. c \<notin> set ''/?#'') rest;
              host = takeWhile (\<lambda>c. c \<noteq> CHR '':'') authority;
              port = drop (length host + 1) authority;
              path = takeWhile (\<lambda>c. c \<notin> set ''?#'') after
          in if host = [] \<or> \<not> list_all (\<lambda>c. c \<in> set digits) port then None
             else Some (if path = [] then ''/'' else path)))"

definition example_platform :: platform where
  "example_platform =
     \<lparr>JSON_parse = example_JSON_parse,
      URL_pathname = example_URL_pathname,
      toLocaleTimeString = ''14:35:22'',
      WebSocket_accepts = (\<lambda>url. prefix ''ws://'' url \<or> prefix ''wss://'' url),
      location_origin = ''http://localhost:8080''\<rparr>"

definition post_init :: "request_body \<Rightarrow> request_init option" where
  "post_init b = Some \<lparr>init_method = Some ''POST'', init_body = b\<rparr>"



definition no_outputs :: outputs where
  "no_outputs = \<lparr>events = [], toasts = [], console_errors = []\<rparr>"

text \<open>
  An octet as it is written in a dotted quad: one to three decimal digits (every number
  from 0 to 255 is written so).
\<close>

definition octet :: "string \<Rightarrow> bool" where
  "octet ds = (ds \<noteq> [] \<and> length ds \<le> 3 \<and> set ds \<subseteq> set digits)"

subsection \<open>A rejected autoplay\<close>

text \<open>
  The rejection of \<open>play()\<close> under the browser's autoplay policy, and the state of a
  freshly mounted component for a stream locator after that rejection reached the
  handler of the classification effect.
\<close>

definition not_allowed_error :: js_error where
  "not_allowed_error =
     \<lparr>err_name = Some ''NotAllowedError'',
      err_message = Some ''play() failed because the user did not interact with the document first.'',
      err_code = Some 0\<rparr>"

definition failed_stream :: video_feed where
  "failed_stream =
     stream_autoplay_rejected not_allowed_error
       (classification_effect ''rtsp://camera/live'' (load_effect initial_feed))"

subsection \<open>A feed switched to an image\<close>

text \<open>
  A component mounted for a stream locator, whose autoplay runs; the rejection of a
  \<open>play()\<close> whose video element was taken off the page; and the state after the displayed
  feed changed to the image \<^verbatim>\<open>/placeholder.svg\<close> and the \<open>play()\<close> of the load effect was
  rejected so.
\<close>

definition playing_stream :: video_feed where
  "playing_stream = classification_effect ''rtsp://camera/live'' (load_effect initial_feed)"

definition abort_error :: js_error where
  "abort_error =
     \<lparr>err_name = Some ''AbortError'',
      err_message = Some ''The play() request was interrupted because the media was removed from the document.'',
      err_code = Some 20\<rparr>"

definition image_error :: video_feed where
  "image_error =
     load_play_rejected abort_error
       (classification_effect ''/placeholder.svg'' (load_effect playing_stream))"

text \<open>The file extensions the classification effect takes for a video file.\<close>

definition video_extensions :: "string list" where
  "video_extensions = [''.mp4'', ''.webm'', ''.mov'', ''.avi'', ''.mkv'']"

section \<open>Properties\<close>

subsection \<open>The matcher\<close>


lemma rx_matches_Nul: "\<not> rx_matches Nul s"
  by (induction s) auto

lemma rx_matches_Eps: "rx_matches Eps s = (s = [])"
  by (cases s) (auto simp: rx_matches_Nul)

lemma rx_matches_Alt: "rx_matches (Alt a b) s = (rx_matches a s \<or> rx_matches b s)"
  by (induction s arbitrary: a b) auto

lemma rx_matches_Cls1: "c \<in> set cs \<Longrightarrow> rx_matches (Cls cs) [c]"
  by simp

lemma rx_matches_nullable_Seq: "nullable a \<Longrightarrow> rx_matches b v \<Longrightarrow> rx_matches (Seq a b) v"
  by (cases v) (auto simp: rx_matches_Alt)

lemma rx_matches_Seq: "rx_matches a u \<Longrightarrow> rx_matches b v \<Longrightarrow> rx_matches (Seq a b) (u @ v)"
proof (induction u arbitrary: a)
  case Nil
  then show ?case by (simp add: rx_matches_nullable_Seq)
next
  case (Cons c u)
  then have "rx_matches (Seq (deriv c a) b) (u @ v)" by simp
  then show ?case by (simp add: rx_matches_Alt)
qed

lemma rx_matches_Star_step:
  "rx_matches a u \<Longrightarrow> rx_matches (Star a) v \<Longrightarrow> rx_matches (Star a) (u @ v)"
proof (cases u)
  case Nil
  assume "rx_matches (Star a) v"
  with Nil show ?thesis by simp
next
  case (Cons c u')
  assume "rx_matches a u" "rx_matches (Star a) v"
  with Cons have "rx_matches (Seq (deriv c a) (Star a)) (u' @ v)"
    by (simp add: rx_matches_Seq)
  with Cons show ?thesis by simp
qed

lemma rx_matches_opt: "rx_matches (rx_opt r) s = (rx_matches r s \<or> s = [])"
  by (simp add: rx_opt_def rx_matches_Alt rx_matches_Eps)

lemma rx_matches_Star_Cls: "set s \<subseteq> set cs \<Longrightarrow> rx_matches (Star (Cls cs)) s"
proof (induction s)
  case Nil
  show ?case by simp
next
  case (Cons c s)
  then have "rx_matches (Cls cs) [c]" "rx_matches (Star (Cls cs)) s" by simp_all
  then have "rx_matches (Star (Cls cs)) ([c] @ s)" by (rule rx_matches_Star_step)
  then show ?case by simp
qed

lemma rx_matches_plus_Cls: "s \<noteq> [] \<Longrightarrow> set s \<subseteq> set cs \<Longrightarrow> rx_matches (rx_plus (Cls cs)) s"
proof (cases s)
  case Nil
  assume "s \<noteq> []" with Nil show ?thesis by simp
next
  case (Cons c t)
  assume "set s \<subseteq> set cs"
  with Cons have "rx_matches (Cls cs) [c]" "rx_matches (Star (Cls cs)) t"
    by (simp_all add: rx_matches_Star_Cls)
  then have "rx_matches (Seq (Cls cs) (Star (Cls cs))) ([c] @ t)" by (rule rx_matches_Seq)
  with Cons show ?thesis by (simp add: rx_plus_def)
qed


lemma rx_matches_one_to_three:
  assumes "octet ds" shows "rx_matches (rx_one_to_three (Cls digits)) ds"
proof -
  from assms consider a where "ds = [a]" | a b where "ds = [a, b]" | a b c where "ds = [a, b, c]"
    unfolding octet_def
    by (cases ds; cases "tl ds"; cases "tl (tl ds)"; cases "tl (tl (tl ds))") auto
  then show ?thesis
  proof cases
    case 1
    with assms show ?thesis by (simp add: octet_def rx_one_to_three_def rx_opt_def)
  next
    case 2
    with assms show ?thesis by (simp add: octet_def rx_one_to_three_def rx_opt_def)
  next
    case 3
    with assms show ?thesis by (simp add: octet_def rx_one_to_three_def rx_opt_def)
  qed
qed


subsection \<open>Classification\<close>


lemma digits_word: "c \<in> set digits \<Longrightarrow> is_word_char c"
  by (auto simp: is_word_char_def word_chars_def)

lemma ip_camera_body_dotted_quad:
  assumes "octet a" "octet b" "octet c" "octet d"
    and "port = [] \<or> (\<exists>p. port = CHR '':'' # p \<and> p \<noteq> [] \<and> set p \<subseteq> set digits)"
  shows "rx_matches ip_camera_body (a @ ''.'' @ b @ ''.'' @ c @ ''.'' @ d @ port)"
proof -
  let ?oct = "rx_one_to_three (Cls digits)"
  let ?grp = "Seq ?oct (Cls ''.'')"
  have dot: "rx_matches (Cls ''.'') ''.''" by simp
  have grp: "rx_matches ?grp (x @ ''.'')" if "octet x" for x
    using rx_matches_one_to_three [OF that] dot by (rule rx_matches_Seq)
  have "rx_matches (Seq ?grp ?grp) ((b @ ''.'') @ (c @ ''.''))"
    using grp [OF assms(2)] grp [OF assms(3)] by (rule rx_matches_Seq)
  with grp [OF assms(1)]
  have three: "rx_matches (rx_thrice ?grp) ((a @ ''.'') @ ((b @ ''.'') @ (c @ ''.'')))"
    unfolding rx_thrice_def by (rule rx_matches_Seq)
  have portm: "rx_matches (rx_opt (Seq (Cls '':'') (rx_plus (Cls digits)))) port"
  proof (cases "port = []")
    case True
    then show ?thesis by (simp add: rx_opt_def)
  next
    case False
    with assms(5) obtain p where p: "port = CHR '':'' # p" "p \<noteq> []" "set p \<subseteq> set digits"
      by auto
    have "rx_matches (Cls '':'') '':''" by simp
    moreover from p have "rx_matches (rx_plus (Cls digits)) p" by (simp add: rx_matches_plus_Cls)
    ultimately have "rx_matches (Seq (Cls '':'') (rx_plus (Cls digits))) ('':'' @ p)"
      by (rule rx_matches_Seq)
    with p have "rx_matches (Seq (Cls '':'') (rx_plus (Cls digits))) port"
      by (simp only: append_Cons append_Nil)
    then show ?thesis unfolding rx_matches_opt by (rule disjI1)
  qed
  have pathm: "rx_matches (rx_opt (Seq (Cls ''/'') (Star (Cls path_chars)))) []"
    by (simp add: rx_opt_def)
  from portm pathm
  have "rx_matches (Seq (rx_opt (Seq (Cls '':'') (rx_plus (Cls digits))))
           (rx_opt (Seq (Cls ''/'') (Star (Cls path_chars))))) (port @ [])"
    by (rule rx_matches_Seq)
  with rx_matches_one_to_three [OF assms(4)]
  have "rx_matches (Seq ?oct (Seq (rx_opt (Seq (Cls '':'') (rx_plus (Cls digits))))
           (rx_opt (Seq (Cls ''/'') (Star (Cls path_chars)))))) (d @ (port @ []))"
    by (rule rx_matches_Seq)
  with three have "rx_matches ip_camera_body
      (((a @ ''.'') @ ((b @ ''.'') @ (c @ ''.''))) @ (d @ (port @ [])))"
    unfolding ip_camera_body_def by (rule rx_matches_Seq)
  then show ?thesis by simp
qed

lemma ip_camera_test_dotted_quad:
  assumes "octet a" "octet b" "octet c" "octet d"
    and "port = [] \<or> (\<exists>p. port = CHR '':'' # p \<and> p \<noteq> [] \<and> set p \<subseteq> set digits)"
  shows "ip_camera_test (a @ ''.'' @ b @ ''.'' @ c @ ''.'' @ d @ port)"
proof -
  from assms(1) obtain x xs where a: "a = x # xs" and x: "x \<in> set digits"
    by (cases a) (auto simp: octet_def)
  from x have "is_word_char x" by (rule digits_word)
  moreover have "rx_matches ip_camera_body (a @ ''.'' @ b @ ''.'' @ c @ ''.'' @ d @ port)"
    using assms by (rule ip_camera_body_dotted_quad)
  ultimately show ?thesis
    unfolding ip_camera_test_def a by (simp add: word_boundary_def)
qed

lemma lower_char_id: "c \<notin> set upper_letters \<Longrightarrow> lower_char c = c"
  by (simp add: lower_char_def map_of_eq_None_iff [THEN iffD2] upper_letters_def lower_letters_def)

lemma toLowerCase_id: "set s \<inter> set upper_letters = {} \<Longrightarrow> toLowerCase s = s"
  unfolding toLowerCase_def by (induction s) (auto simp: lower_char_id)

lemma toLowerCase_append: "toLowerCase (s @ t) = toLowerCase s @ toLowerCase t"
  by (simp add: toLowerCase_def)

lemma classify_cases:
  "classify locator =
     (if isVideoFile (toLowerCase locator) then FileVideo
      else if isStream (toLowerCase locator) then LiveStream else StaticImage)"
  by (simp add: classify_def sourceKind_def classification_effect_def Let_def)

lemma isVideoFile_iff: "isVideoFile url = (\<exists>ext \<in> set video_extensions. suffix ext url)"
  by (simp add: isVideoFile_def endsWith_def video_extensions_def)

lemma classify_video_extension:
  assumes "toLowerCase suf \<in> set video_extensions"
  shows "classify (pre @ suf) = FileVideo"
proof -
  have "suffix (toLowerCase suf) (toLowerCase (pre @ suf))"
    by (simp add: toLowerCase_append suffix_def)
  with assms have "isVideoFile (toLowerCase (pre @ suf))"
    unfolding isVideoFile_iff by blast
  then show ?thesis by (simp add: classify_cases)
qed

lemma dotted_quad_chars:
  assumes "octet a" "octet b" "octet c" "octet d"
    and "port = [] \<or> (\<exists>p. port = CHR '':'' # p \<and> p \<noteq> [] \<and> set p \<subseteq> set digits)"
  shows "set (a @ ''.'' @ b @ ''.'' @ c @ ''.'' @ d @ port) \<subseteq> set digits \<union> {CHR ''.'', CHR '':''}"
  using assms by (auto simp: octet_def)

lemma no_video_extension:
  assumes "set s \<subseteq> set digits \<union> {CHR ''.'', CHR '':''}"
  shows "\<not> isVideoFile s"
proof
  assume "isVideoFile s"
  then obtain ext where ext: "ext \<in> set video_extensions" "suffix ext s"
    unfolding isVideoFile_iff by blast
  from ext(2) have "set ext \<subseteq> set s" by (rule set_mono_suffix)
  with assms have sub: "set ext \<subseteq> set digits \<union> {CHR ''.'', CHR '':''}" by blast
  from ext(1) have "CHR ''m'' \<in> set ext \<or> CHR ''a'' \<in> set ext"
    by (auto simp: video_extensions_def)
  with sub have "CHR ''m'' \<in> set digits \<union> {CHR ''.'', CHR '':''}
      \<or> CHR ''a'' \<in> set digits \<union> {CHR ''.'', CHR '':''}" by blast
  then show False by (simp add: digits_def)
qed

lemma classify_dotted_quad:
  assumes "octet a" "octet b" "octet c" "octet d"
    and "port = [] \<or> (\<exists>p. port = CHR '':'' # p \<and> p \<noteq> [] \<and> set p \<subseteq> set digits)"
  shows "classify (a @ ''.'' @ b @ ''.'' @ c @ ''.'' @ d @ port) = LiveStream"
proof -
  let ?s = "a @ ''.'' @ b @ ''.'' @ c @ ''.'' @ d @ port"
  have chars: "set ?s \<subseteq> set digits \<union> {CHR ''.'', CHR '':''}"
    using assms by (rule dotted_quad_chars)
  have "(set digits \<union> {CHR ''.'', CHR '':''}) \<inter> set upper_letters = {}"
    by (simp add: digits_def upper_letters_def)
  with chars have "set ?s \<inter> set upper_letters = {}" by blast
  then have low: "toLowerCase ?s = ?s" by (rule toLowerCase_id)
  have "ip_camera_test ?s" using assms by (rule ip_camera_test_dotted_quad)
  then have "isStream ?s" by (simp add: isStream_def)
  moreover have "\<not> isVideoFile ?s" using chars by (rule no_video_extension)
  ultimately show ?thesis unfolding classify_cases low by simp
qed

lemma classify_empty: "classify [] = StaticImage"
  by code_simp



lemma rx_matches_beginning_append:
  "rx_matches r u \<Longrightarrow> rx_matches_beginning r (u @ v)"
proof (induction u arbitrary: r)
  case Nil
  then show ?case by (cases v) simp_all
next
  case (Cons c u)
  then show ?case by simp
qed

lemma rx_search_beginning: "rx_matches_beginning r s \<Longrightarrow> rx_search r s"
  by (cases s) simp_all

lemma octet_plus: "octet x \<Longrightarrow> rx_matches (rx_plus (Cls digits)) x"
  by (simp add: octet_def rx_matches_plus_Cls)

lemma dotted_digits_quad:
  assumes "octet a" "octet b" "octet c" "octet d"
  shows "rx_matches dotted_digits (a @ ''.'' @ b @ ''.'' @ c @ ''.'' @ d)"
proof -
  have dot: "rx_matches (Cls ''.'') ''.''" by simp
  note p = octet_plus
  have "rx_matches (Seq (Cls ''.'') (rx_plus (Cls digits))) (''.'' @ d)"
    using dot p [OF assms(4)] by (rule rx_matches_Seq)
  with p [OF assms(3)]
  have "rx_matches (Seq (rx_plus (Cls digits)) (Seq (Cls ''.'') (rx_plus (Cls digits))))
      (c @ (''.'' @ d))"
    by (rule rx_matches_Seq)
  with dot
  have "rx_matches (Seq (Cls ''.'') (Seq (rx_plus (Cls digits))
      (Seq (Cls ''.'') (rx_plus (Cls digits))))) (''.'' @ (c @ (''.'' @ d)))"
    by (rule rx_matches_Seq)
  with p [OF assms(2)]
  have "rx_matches (Seq (rx_plus (Cls digits)) (Seq (Cls ''.'') (Seq (rx_plus (Cls digits))
      (Seq (Cls ''.'') (rx_plus (Cls digits)))))) (b @ (''.'' @ (c @ (''.'' @ d))))"
    by (rule rx_matches_Seq)
  with dot
  have "rx_matches (Seq (Cls ''.'') (Seq (rx_plus (Cls digits)) (Seq (Cls ''.'')
      (Seq (rx_plus (Cls digits)) (Seq (Cls ''.'') (rx_plus (Cls digits)))))))
      (''.'' @ (b @ (''.'' @ (c @ (''.'' @ d)))))"
    by (rule rx_matches_Seq)
  with p [OF assms(1)]
  have "rx_matches dotted_digits (a @ (''.'' @ (b @ (''.'' @ (c @ (''.'' @ d))))))"
    unfolding dotted_digits_def by (rule rx_matches_Seq)
  then show ?thesis by simp
qed

lemma classify_draft2_cases:
  "classify_draft2 locator =
     (if isVideoFile (toLowerCase locator) then FileVideo
      else if isStream_draft2 (toLowerCase locator) then LiveStream else StaticImage)"
  by (simp add: classify_draft2_def sourceKind_def Let_def)

lemma classify_draft2_video_extension:
  assumes "toLowerCase suf \<in> set video_extensions"
  shows "classify_draft2 (pre @ suf) = FileVideo"
proof -
  have "suffix (toLowerCase suf) (toLowerCase (pre @ suf))"
    by (simp add: toLowerCase_append suffix_def)
  with assms have "isVideoFile (toLowerCase (pre @ suf))"
    unfolding isVideoFile_iff by blast
  then show ?thesis by (simp add: classify_draft2_cases)
qed

lemma classify_draft2_dotted_quad:
  assumes "octet a" "octet b" "octet c" "octet d"
    and "port = [] \<or> (\<exists>p. port = CHR '':'' # p \<and> p \<noteq> [] \<and> set p \<subseteq> set digits)"
  shows "classify_draft2 (a @ ''.'' @ b @ ''.'' @ c @ ''.'' @ d @ port) = LiveStream"
proof -
  let ?s = "a @ ''.'' @ b @ ''.'' @ c @ ''.'' @ d @ port"
  have chars: "set ?s \<subseteq> set digits \<union> {CHR ''.'', CHR '':''}"
    using assms by (rule dotted_quad_chars)
  have "(set digits \<union> {CHR ''.'', CHR '':''}) \<inter> set upper_letters = {}"
    by (simp add: digits_def upper_letters_def)
  with chars have "set ?s \<inter> set upper_letters = {}" by blast
  then have low: "toLowerCase ?s = ?s" by (rule toLowerCase_id)
  have "rx_matches dotted_digits (a @ ''.'' @ b @ ''.'' @ c @ ''.'' @ d)"
    using assms(1-4) by (rule dotted_digits_quad)
  then have "rx_matches_beginning dotted_digits ((a @ ''.'' @ b @ ''.'' @ c @ ''.'' @ d) @ port)"
    by (rule rx_matches_beginning_append)
  then have "rx_search dotted_digits ((a @ ''.'' @ b @ ''.'' @ c @ ''.'' @ d) @ port)"
    by (rule rx_search_beginning)
  then have "rx_search dotted_digits ?s" by simp
  then have "isStream_draft2 ?s" by (simp add: isStream_draft2_def)
  moreover have "\<not> isVideoFile ?s" using chars by (rule no_video_extension)
  ultimately show ?thesis unfolding classify_draft2_cases low by simp
qed

lemma classify_draft2_empty: "classify_draft2 [] = StaticImage"
  by code_simp

text \<open>
  C1. A locator whose ending, in lower case, is one of the video extensions is classified
  as a file video, whatever precedes the ending; a dotted quad of octets, with or without
  a port of decimal digits after a colon, is classified as a live stream; the empty
  locator is classified as a static image. Both drafts of the classification effect
  agree on this.
\<close>

theorem classify_extension_ipv4_empty:
  "(toLowerCase suf \<in> set video_extensions \<longrightarrow>
      classify (pre @ suf) = FileVideo \<and> classify_draft2 (pre @ suf) = FileVideo)
   \<and> (octet a \<and> octet b \<and> octet c \<and> octet d
        \<and> (port = [] \<or> (\<exists>p. port = CHR '':'' # p \<and> p \<noteq> [] \<and> set p \<subseteq> set digits))
      \<longrightarrow> classify (a @ ''.'' @ b @ ''.'' @ c @ ''.'' @ d @ port) = LiveStream
        \<and> classify_draft2 (a @ ''.'' @ b @ ''.'' @ c @ ''.'' @ d @ port) = LiveStream)
   \<and> classify [] = StaticImage
   \<and> classify_draft2 [] = StaticImage"
proof -
  have 1: "toLowerCase suf \<in> set video_extensions \<longrightarrow>
      classify (pre @ suf) = FileVideo \<and> classify_draft2 (pre @ suf) = FileVideo"
    using classify_video_extension [of suf pre] classify_draft2_video_extension [of suf pre]
    by blast
  have 2: "octet a \<and> octet b \<and> octet c \<and> octet d
        \<and> (port = [] \<or> (\<exists>p. port = CHR '':'' # p \<and> p \<noteq> [] \<and> set p \<subseteq> set digits))
      \<longrightarrow> classify (a @ ''.'' @ b @ ''.'' @ c @ ''.'' @ d @ port) = LiveStream
        \<and> classify_draft2 (a @ ''.'' @ b @ ''.'' @ c @ ''.'' @ d @ port) = LiveStream"
    using classify_dotted_quad [of a b c d port] classify_draft2_dotted_quad [of a b c d port]
    by blast
  from 1 2 classify_empty classify_draft2_empty show ?thesis by (intro conjI)
qed

theorem classify_extension_ipv4_empty_witness:
  "toLowerCase ''.MP4'' \<in> set video_extensions
   \<and> classify ''/videos/Clip.MP4'' = FileVideo
   \<and> classify_draft2 ''/videos/Clip.MP4'' = FileVideo
   \<and> octet ''192'' \<and> octet ''168'' \<and> octet ''1'' \<and> octet ''10''
   \<and> classify ''192.168.1.10:8080'' = LiveStream
   \<and> classify_draft2 ''192.168.1.10:8080'' = LiveStream
   \<and> classify [] = StaticImage"
proof -
  have ext: "toLowerCase ''.MP4'' \<in> set video_extensions"
    by code_simp
  have oct: "octet ''192'' \<and> octet ''168'' \<and> octet ''1'' \<and> octet ''10''
        \<and> ('':8080'' = [] \<or> (\<exists>p. '':8080'' = CHR '':'' # p \<and> p \<noteq> [] \<and> set p \<subseteq> set digits))"
    by (simp add: octet_def digits_def)
  note inst = classify_extension_ipv4_empty
    [of "''.MP4''" "''/videos/Clip''" "''192''" "''168''" "''1''" "''10''" "'':8080''"]
  from inst ext have "classify (''/videos/Clip'' @ ''.MP4'') = FileVideo
      \<and> classify_draft2 (''/videos/Clip'' @ ''.MP4'') = FileVideo" by blast
  moreover from inst oct
  have "classify (''192'' @ ''.'' @ ''168'' @ ''.'' @ ''1'' @ ''.'' @ ''10'' @ '':8080'') = LiveStream
      \<and> classify_draft2 (''192'' @ ''.'' @ ''168'' @ ''.'' @ ''1'' @ ''.'' @ ''10'' @ '':8080'') = LiveStream"
    by blast
  moreover from inst have "classify [] = StaticImage" by blast
  ultimately show ?thesis using ext oct by simp
qed

text \<open>
  C2, as stated, fails: \<^verbatim>\<open>http://example.com/photo.jpg\<close> has no video extension, does not
  start with \<^verbatim>\<open>rtsp://\<close> or \<^verbatim>\<open>rtmp://\<close>, contains neither \<^verbatim>\<open>stream\<close> nor \<^verbatim>\<open>video_feed\<close>,
  holds no digit at all (so no port and no address), and is classified as a live stream,
  by either draft of the effect.
\<close>

theorem classify_http_image_counterexample:
  "\<not> isVideoFile (toLowerCase ''http://example.com/photo.jpg'')
   \<and> \<not> startsWith (toLowerCase ''http://example.com/photo.jpg'') ''rtsp://''
   \<and> \<not> startsWith (toLowerCase ''http://example.com/photo.jpg'') ''rtmp://''
   \<and> \<not> includes_str (toLowerCase ''http://example.com/photo.jpg'') ''stream''
   \<and> \<not> includes_str (toLowerCase ''http://example.com/photo.jpg'') ''video_feed''
   \<and> \<not> ip_camera_test (toLowerCase ''http://example.com/photo.jpg'')
   \<and> set ''http://example.com/photo.jpg'' \<inter> set digits = {}
   \<and> classify ''http://example.com/photo.jpg'' = LiveStream
   \<and> classify ''http://example.com/photo.jpg'' \<noteq> StaticImage
   \<and> classify_draft2 ''http://example.com/photo.jpg'' = LiveStream"
  by code_simp

text \<open>
  C2, amended. A locator is classified as a static image exactly when, in lower case, it
  has no video extension, contains none of \<^verbatim>\<open>rtsp://\<close>, \<^verbatim>\<open>rtmp://\<close>, \<^verbatim>\<open>http://\<close>,
  \<^verbatim>\<open>https://\<close>, \<^verbatim>\<open>stream\<close> and \<^verbatim>\<open>video_feed\<close> anywhere, and does not end in the address
  pattern of the effect; a locator containing \<^verbatim>\<open>http://\<close> or \<^verbatim>\<open>https://\<close> that has no video
  extension is a live stream, whatever its host and path.
\<close>

theorem classify_static_image_iff:
  "(classify locator = StaticImage) =
     (\<not> isVideoFile (toLowerCase locator)
      \<and> \<not> includes_str (toLowerCase locator) ''rtsp://''
      \<and> \<not> includes_str (toLowerCase locator) ''rtmp://''
      \<and> \<not> includes_str (toLowerCase locator) ''http://''
      \<and> \<not> includes_str (toLowerCase locator) ''https://''
      \<and> \<not> includes_str (toLowerCase locator) ''stream''
      \<and> \<not> includes_str (toLowerCase locator) ''video_feed''
      \<and> \<not> ip_camera_test (toLowerCase locator))
   \<and> ((includes_str (toLowerCase locator) ''http://''
        \<or> includes_str (toLowerCase locator) ''https://'')
       \<and> \<not> isVideoFile (toLowerCase locator)
      \<longrightarrow> classify locator = LiveStream)"
  by (auto simp: classify_cases isStream_def)

theorem classify_static_image_iff_witness:
  "classify ''/placeholder.svg'' = StaticImage
   \<and> includes_str (toLowerCase ''HTTPS://example.com/photo.jpg'') ''https://''
   \<and> \<not> isVideoFile (toLowerCase ''HTTPS://example.com/photo.jpg'')
   \<and> classify ''HTTPS://example.com/photo.jpg'' = LiveStream"
proof -
  have a: "\<not> isVideoFile (toLowerCase ''/placeholder.svg'')
      \<and> \<not> includes_str (toLowerCase ''/placeholder.svg'') ''rtsp://''
      \<and> \<not> includes_str (toLowerCase ''/placeholder.svg'') ''rtmp://''
      \<and> \<not> includes_str (toLowerCase ''/placeholder.svg'') ''http://''
      \<and> \<not> includes_str (toLowerCase ''/placeholder.svg'') ''https://''
      \<and> \<not> includes_str (toLowerCase ''/placeholder.svg'') ''stream''
      \<and> \<not> includes_str (toLowerCase ''/placeholder.svg'') ''video_feed''
      \<and> \<not> ip_camera_test (toLowerCase ''/placeholder.svg'')"
    by code_simp
  have b: "includes_str (toLowerCase ''HTTPS://example.com/photo.jpg'') ''https://''
      \<and> \<not> isVideoFile (toLowerCase ''HTTPS://example.com/photo.jpg'')"
    by code_simp
  from a have "classify ''/placeholder.svg'' = StaticImage"
    using classify_static_image_iff [of "''/placeholder.svg''"] by blast
  moreover from b have "classify ''HTTPS://example.com/photo.jpg'' = LiveStream"
    using classify_static_image_iff [of "''HTTPS://example.com/photo.jpg''"] by blast
  ultimately show ?thesis using b by blast
qed



subsection \<open>Playback errors and retry\<close>


lemma getErrorMessage_nonempty: "getErrorMessage e \<noteq> []"
  by (auto simp: getErrorMessage_def unknown_camera_error_def split: option.splits)

lemma handleVideoError_sets_error:
  "hasError (handleVideoError err s) \<and> errorDetails (handleVideoError err s) \<noteq> []
   \<and> \<not> isLoading (handleVideoError err s)"
  by (auto simp: handleVideoError_def Let_def split: option.splits)

lemma load_play_rejected_not_allowed:
  "err_name e = Some ''NotAllowedError'' \<Longrightarrow> \<not> hasError (load_play_rejected e s)"
  by (simp add: load_play_rejected_def)

lemma play_rejected_other_sets_error:
  "err_name e \<noteq> Some ''NotAllowedError'' \<Longrightarrow>
     hasError (load_play_rejected e s) \<and> errorDetails (load_play_rejected e s) \<noteq> []"
  by (simp add: load_play_rejected_def getErrorMessage_nonempty)

lemma stream_autoplay_rejected_sets_error:
  "hasError (stream_autoplay_rejected e s) \<and> errorDetails (stream_autoplay_rejected e s) \<noteq> []"
  by (simp add: stream_autoplay_rejected_def getErrorMessage_nonempty)

lemma toggle_play_rejected_sets_error:
  "hasError (toggle_play_rejected e s) \<and> errorDetails (toggle_play_rejected e s) \<noteq> []"
  by (simp add: toggle_play_rejected_def getErrorMessage_nonempty)

text \<open>
  C4, at the input where the code departs from it. A component is mounted for the locator
  \<^verbatim>\<open>rtsp://camera/live\<close>; the load effect loads and pauses, the classification effect
  starts playback, and the browser rejects that \<open>play()\<close> with \<open>NotAllowedError\<close>. The
  handler of the classification effect sets \<open>hasError\<close> and stores the permission
  diagnostic; the handler of the load effect, given the same rejection in the same state,
  leaves \<open>hasError\<close> unset.
\<close>

theorem stream_autoplay_not_allowed_is_error:
  "sink (classification_effect ''rtsp://camera/live'' (load_effect initial_feed))
     = [Load, Pause, Play]
   \<and> hasError (stream_autoplay_rejected not_allowed_error
        (classification_effect ''rtsp://camera/live'' (load_effect initial_feed)))
   \<and> errorDetails (stream_autoplay_rejected not_allowed_error
        (classification_effect ''rtsp://camera/live'' (load_effect initial_feed)))
     = ''Permission denied: Browser prevented autoplay.''
   \<and> \<not> hasError (load_play_rejected not_allowed_error
        (classification_effect ''rtsp://camera/live'' (load_effect initial_feed)))"
  by code_simp

text \<open>
  C9, as stated, fails. A component shows the stream \<^verbatim>\<open>rtsp://camera/live\<close>, which plays,
  and the displayed feed changes to the image \<^verbatim>\<open>/placeholder.svg\<close>. Neither render has an
  error, so both effects find the video element: the load effect calls \<open>load()\<close> and, the
  stream having been playing, \<open>play()\<close>; the classification effect finds an image and clears
  \<open>isVideoFeed\<close>, which takes the element off the page; the pending \<open>play()\<close> is rejected and
  its handler sets \<open>hasError\<close>. The session is in the error state without a video element,
  and a retry, which adds one to \<open>retryCount\<close> and clears the error, calls nothing on the
  sink.
\<close>

theorem retry_on_image_issues_no_load_counterexample:
  "\<not> hasError initial_feed
   \<and> \<not> hasError playing_stream
   \<and> isPlaying playing_stream
   \<and> sink playing_stream = [Load, Pause, Play]
   \<and> classify ''/placeholder.svg'' = StaticImage
   \<and> sink (classification_effect ''/placeholder.svg'' (load_effect playing_stream))
       = [Load, Pause, Play, Load, Play]
   \<and> hasError image_error
   \<and> errorDetails image_error
       = ''The play() request was interrupted because the media was removed from the document.''
   \<and> \<not> isVideoFeed image_error
   \<and> retryCount image_error = 0
   \<and> sink image_error = [Load, Pause, Play, Load, Play]
   \<and> retryCount (retry \<lparr>feed_id = ''2'', feed_url = ''/placeholder.svg''\<rparr> image_error) = 1
   \<and> \<not> hasError (retry \<lparr>feed_id = ''2'', feed_url = ''/placeholder.svg''\<rparr> image_error)
   \<and> sink (retry \<lparr>feed_id = ''2'', feed_url = ''/placeholder.svg''\<rparr> image_error)
       = [Load, Pause, Play, Load, Play]"
  by code_simp

text \<open>
  C9, amended. A retry on a session in the error state adds one to \<open>retryCount\<close>, clears
  \<open>hasError\<close> and \<open>errorDetails\<close>, sets \<open>isLoading\<close>, and runs the load effect again although
  the feed is the same (its dependencies differ in \<open>retryCount\<close>); the effect calls \<open>load()\<close>
  on the video element, followed by \<open>play()\<close> or \<open>pause()\<close>, when the feed is a video feed, and
  calls nothing when it is not, there being no video element then.
\<close>

theorem retry_reissues_load_on_video_feed:
  assumes "hasError s"
  shows "retryCount (retry feed s) = retryCount s + 1
    \<and> \<not> hasError (retry feed s)
    \<and> errorDetails (retry feed s) = []
    \<and> isLoading (retry feed s)
    \<and> load_effect_deps feed (retryLoading s) \<noteq> load_effect_deps feed s
    \<and> retry feed s = load_effect (retryLoading s)
    \<and> sink (retry feed s) =
        sink s @ (if isVideoFeed s
                  then [Load, if isPlaying s \<or> isLiveStream s then Play else Pause]
                  else [])"
  by (simp add: retry_def rendered_after_def load_effect_deps_def retryLoading_def
      load_effect_def video_mounted_def Let_def)

theorem retry_reissues_load_on_video_feed_witness:
  "hasError failed_stream
   \<and> retryCount failed_stream = 0
   \<and> retryCount (retry \<lparr>feed_id = ''1'', feed_url = ''rtsp://camera/live''\<rparr> failed_stream) = 1
   \<and> \<not> hasError (retry \<lparr>feed_id = ''1'', feed_url = ''rtsp://camera/live''\<rparr> failed_stream)
   \<and> sink failed_stream = [Load, Pause, Play]
   \<and> sink (retry \<lparr>feed_id = ''1'', feed_url = ''rtsp://camera/live''\<rparr> failed_stream)
       = [Load, Pause, Play, Load, Play]"
proof -
  let ?f = "\<lparr>feed_id = ''1'', feed_url = ''rtsp://camera/live''\<rparr>"
  have e: "hasError failed_stream" by code_simp
  have v: "isVideoFeed failed_stream \<and> isLiveStream failed_stream
      \<and> retryCount failed_stream = 0 \<and> sink failed_stream = [Load, Pause, Play]"
    by code_simp
  note inst = retry_reissues_load_on_video_feed [OF e, of ?f]
  from inst have "retryCount (retry ?f failed_stream) = retryCount failed_stream + 1"
    by blast
  with v have 1: "retryCount (retry ?f failed_stream) = 1" by simp
  from inst have 2: "\<not> hasError (retry ?f failed_stream)" by blast
  from inst have "sink (retry ?f failed_stream) =
        sink failed_stream @ (if isVideoFeed failed_stream
                  then [Load, if isPlaying failed_stream \<or> isLiveStream failed_stream
                              then Play else Pause]
                  else [])"
    by blast
  with v have 3: "sink (retry ?f failed_stream) = [Load, Pause, Play, Load, Play]" by simp
  from e v 1 2 3 show ?thesis by blast
qed


subsection \<open>The fetch override\<close>



lemma fetch_override_outcomes:
  "fst (fetch_override pf endpoint input init out) = Forwarded input init
   \<or> fst (fetch_override pf endpoint input init out) = Synthesized success_response
   \<or> (matches_endpoint pf endpoint input init = Inl TypeError
       \<and> fetch_override pf endpoint input init out = (Rejected TypeError, out))"
  by (auto simp: fetch_override_def matches_endpoint_def
      split: sum.splits bool.splits option.splits request_body.splits)

lemma fetch_override_matching_intercepted:
  "matches_endpoint pf endpoint input init = Inr True \<Longrightarrow>
     intercepted (fst (fetch_override pf endpoint input init out)) = processable pf init"
  by (simp add: fetch_override_def processable_def
      split: request_body.split option.split sum.split)

lemma fetch_override_matching_forwarded:
  assumes "matches_endpoint pf endpoint input init = Inr True"
    and "\<not> processable pf init"
  shows "fst (fetch_override pf endpoint input init out) = Forwarded input init"
proof -
  from assms have "\<not> intercepted (fst (fetch_override pf endpoint input init out))"
    by (simp add: fetch_override_matching_intercepted)
  with fetch_override_outcomes [of pf endpoint input init out] assms(1)
  show ?thesis by auto
qed








text \<open>
  C3, as stated, fails: a \<open>POST\<close> to the configured path whose body is the text
  \<^verbatim>\<open>not json\<close> is matched, logged, and handed to the original \<open>fetch\<close>; the override does
  not answer it.
\<close>

theorem malformed_body_forwarded_counterexample:
  "matches_endpoint example_platform ''/detection_output'' (InputString ''/detection_output'')
       (post_init (StringBody ''not json'')) = Inr True
   \<and> JSON_parse example_platform ''not json'' = None
   \<and> fetch_override example_platform ''/detection_output'' (InputString ''/detection_output'')
       (post_init (StringBody ''not json'')) no_outputs
     = (Forwarded (InputString ''/detection_output'') (post_init (StringBody ''not json'')),
        \<lparr>events = [], toasts = [], console_errors = [ProcessingDetectionData]\<rparr>)
   \<and> \<not> intercepted (fst (fetch_override example_platform ''/detection_output''
       (InputString ''/detection_output'') (post_init (StringBody ''not json'')) no_outputs))"
  by code_simp

text \<open>
  C3, amended. A matched request (a \<open>POST\<close> to the configured path) whose body is a
  string that \<open>JSON.parse\<close> rejects is logged with \<open>console.error\<close>, publishes no
  detection event and no toast, and is handed unchanged to the original \<open>fetch\<close>, whose
  promise the caller receives.
\<close>

theorem malformed_body_logged_and_forwarded:
  assumes "matches_endpoint pf endpoint input init = Inr True"
    and "body_of init = StringBody body"
    and "JSON_parse pf body = None"
  shows "fetch_override pf endpoint input init out
           = (Forwarded input init, log_error ProcessingDetectionData out)
    \<and> events (snd (fetch_override pf endpoint input init out)) = events out
    \<and> toasts (snd (fetch_override pf endpoint input init out)) = toasts out
    \<and> console_errors (snd (fetch_override pf endpoint input init out))
        = console_errors out @ [ProcessingDetectionData]"
  using assms by (simp add: fetch_override_def log_error_def)

theorem malformed_body_logged_and_forwarded_witness:
  "matches_endpoint example_platform ''/detection_output''
       (InputString ''https://other.example:9000/detection_output?from=camera'')
       (post_init (StringBody ''not json'')) = Inr True
   \<and> JSON_parse example_platform ''not json'' = None
   \<and> fst (fetch_override example_platform ''/detection_output''
       (InputString ''https://other.example:9000/detection_output?from=camera'')
       (post_init (StringBody ''not json'')) no_outputs)
     = Forwarded (InputString ''https://other.example:9000/detection_output?from=camera'')
         (post_init (StringBody ''not json''))
   \<and> events (snd (fetch_override example_platform ''/detection_output''
       (InputString ''https://other.example:9000/detection_output?from=camera'')
       (post_init (StringBody ''not json'')) no_outputs)) = []"
proof -
  have m: "matches_endpoint example_platform ''/detection_output''
       (InputString ''https://other.example:9000/detection_output?from=camera'')
       (post_init (StringBody ''not json'')) = Inr True"
    by code_simp
  have b: "body_of (post_init (StringBody ''not json'')) = StringBody ''not json''"
    by (simp add: post_init_def body_of_def)
  have p: "JSON_parse example_platform ''not json'' = None"
    by code_simp
  have e: "events no_outputs = []" by (simp add: no_outputs_def)
  show ?thesis
    using malformed_body_logged_and_forwarded [OF m b p, of no_outputs] m p e
    by (simp add: log_error_def)
qed




text \<open>
  An address relative to the page has no URL in the sense above: the override parses the
  origin followed by the address, with nothing between them, which here is no URL at all,
  and the caller's promise is rejected.
\<close>

lemma relative_address_rejected:
  "request_url example_platform (InputString ''api/data'') = None
   \<and> request_target example_platform (InputString ''api/data'') = ''http://localhost:8080api/data''
   \<and> fetch_override example_platform ''/detection_output'' (InputString ''api/data'') None no_outputs
     = (Rejected TypeError, no_outputs)"
  by code_simp


subsection \<open>The socket\<close>


lemma detection_toast_null: "detection_toast pf label JNull = Inl TypeError"
  by (simp add: detection_toast_def get_prop_def)

lemma ws_onmessage_not_json:
  "parse_frame pf frame = None \<Longrightarrow>
     ws_onmessage pf frame out = dispatch (RawMessage frame) (log_error ParsingWebSocketData out)"
  by (simp add: ws_onmessage_def)

lemma ws_onmessage_json:
  "parse_frame pf frame = Some data \<Longrightarrow> detection_toast pf ''WebSocket event'' data = Inr n \<Longrightarrow>
     ws_onmessage pf frame out = publish n (dispatch (Data data) out)"
  by (simp add: ws_onmessage_def)

lemma ws_onmessage_json_throwing:
  "parse_frame pf frame = Some data \<Longrightarrow> detection_toast pf ''WebSocket event'' data = Inl e \<Longrightarrow>
     events (ws_onmessage pf frame out) = events out @ [Data data, RawMessage frame]"
  by (simp add: ws_onmessage_def dispatch_def log_error_def)

lemma detection_toast_default_timestamp:
  assumes "get_prop d ''timestamp'' = Inr None"
    and "detection_toast pf label d = Inr n"
  shows "\<exists>feed_text. n_description n = ''Feed ID: '' @ feed_text @ '' - '' @ toLocaleTimeString pf"
  using assms
  by (auto simp: detection_toast_def or_default_def split: sum.splits)

lemma ws_onmessage_events_grow:
  "length (events out) < length (events (ws_onmessage pf frame out))"
  by (simp add: ws_onmessage_def dispatch_def log_error_def publish_def
      split: option.split sum.split)

lemma ws_onmessage_toasts:
  "toasts (ws_onmessage pf frame out) = toasts out
   \<or> (\<exists>n. toasts (ws_onmessage pf frame out) = toasts out @ [n])"
  by (simp add: ws_onmessage_def dispatch_def log_error_def publish_def
      split: option.split sum.split)

text \<open>
  C7, at the input where the code departs from it. The frame \<^verbatim>\<open>null\<close> parses as JSON; the
  handler dispatches the event carrying the payload, fails on \<open>data.event\<close> inside the
  same \<open>try\<close>, and the \<open>catch\<close> written for frames that are no JSON dispatches a raw
  message event as well: two events, and no toast. For comparison, the frame of the
  specification yields one event and a toast with the time of receipt, and a frame that
  is no JSON yields one raw message event.
\<close>

theorem null_frame_publishes_two_events:
  "parse_frame example_platform (TextFrame ''null'') = Some JNull
   \<and> events (ws_onmessage example_platform (TextFrame ''null'') no_outputs)
     = [Data JNull, RawMessage (TextFrame ''null'')]
   \<and> toasts (ws_onmessage example_platform (TextFrame ''null'') no_outputs) = []
   \<and> events (ws_onmessage example_platform (TextFrame vehicle_payload) no_outputs)
     = [Data (JObj [(''event'', JStr ''Vehicle detected''), (''feedId'', JStr ''2'')])]
   \<and> map n_description (toasts (ws_onmessage example_platform (TextFrame vehicle_payload) no_outputs))
     = [''Feed ID: 2 - '' @ toLocaleTimeString example_platform]
   \<and> events (ws_onmessage example_platform (TextFrame ''hello'') no_outputs)
     = [RawMessage (TextFrame ''hello'')]"
  by code_simp


lemma sockets_setWsConnected [simp]: "sockets (setWsConnected b t) = sockets t"
  and effect_ws_setWsConnected [simp]: "effect_ws (setWsConnected b t) = effect_ws t"
  and mounted_setWsConnected [simp]: "mounted (setWsConnected b t) = mounted t"
  by (simp_all add: setWsConnected_def)

lemma sockets_setSocket [simp]: "sockets (setSocket v t) = sockets t"
  and effect_ws_setSocket [simp]: "effect_ws (setSocket v t) = effect_ws t"
  and mounted_setSocket [simp]: "mounted (setSocket v t) = mounted t"
  by (simp_all add: setSocket_def)

lemma close_socket_fields [simp]:
  "effect_ws (close_socket k t) = effect_ws t"
  "mounted (close_socket k t) = mounted t"
  "length (sockets (close_socket k t)) = length (sockets t)"
  by (simp_all add: close_socket_def)

lemma close_socket_nth:
  "j < length (sockets t) \<Longrightarrow>
     sockets (close_socket k t) ! j =
       (if j = k then (sockets t ! j)\<lparr>close_calls := close_calls (sockets t ! j) + 1\<rparr>
        else sockets t ! j)"
  by (simp add: close_socket_def)

lemma close_socket_handlers:
  "list_all handlers_set (sockets t) \<Longrightarrow> list_all handlers_set (sockets (close_socket k t))"
  by (auto simp: list_all_length close_socket_nth handlers_set_def)

lemma wf_close_socket:
  assumes "wf_terminal t"
  shows "wf_terminal (close_socket k t)"
proof -
  have h: "list_all handlers_set (sockets (close_socket k t))"
    using assms by (simp add: wf_terminal_def close_socket_handlers)
  have c: "\<forall>j<length (sockets t).
      effect_ws t \<noteq> Some j \<longrightarrow> close_calls (sockets (close_socket k t) ! j) \<noteq> 0"
    using assms by (simp add: wf_terminal_def close_socket_nth)
  from assms h c show ?thesis by (simp add: wf_terminal_def)
qed

lemma wf_setWsConnected: "wf_terminal (setWsConnected b t) = wf_terminal t"
  by (simp add: wf_terminal_def)

lemma wf_setSocket: "wf_terminal (setSocket v t) = wf_terminal t"
  by (simp add: wf_terminal_def)

lemma wf_cleanup:
  assumes "wf_terminal t"
  shows "wf_terminal (ws_effect_cleanup t) \<and> effect_ws (ws_effect_cleanup t) = None
    \<and> all_closed (ws_effect_cleanup t) \<and> mounted (ws_effect_cleanup t) = mounted t"
proof (cases "effect_ws t")
  case None
  with assms show ?thesis
    by (auto simp: ws_effect_cleanup_def wf_terminal_def all_closed_def list_all_length)
next
  case (Some k)
  with assms have k: "k < length (sockets t)" by (simp add: wf_terminal_def)
  have c: "ws_effect_cleanup t = (setWsConnected False (setSocket None (close_socket k t)))\<lparr>effect_ws := None\<rparr>"
    using Some by (simp add: ws_effect_cleanup_def)
  have "\<forall>j < length (sockets t). close_calls (sockets (close_socket k t) ! j) \<noteq> 0"
    using assms Some by (auto simp: close_socket_nth wf_terminal_def)
  then have closed: "all_closed (ws_effect_cleanup t)"
    by (simp add: c all_closed_def list_all_length)
  have "list_all handlers_set (sockets (close_socket k t))"
    using assms by (simp add: wf_terminal_def close_socket_handlers)
  with closed show ?thesis
    by (simp add: c wf_terminal_def all_closed_def list_all_length)
qed

lemma wf_setup:
  assumes "list_all handlers_set (sockets t)" "all_closed t" "mounted t"
  shows "wf_terminal (ws_effect_setup pf t)"
  using assms
  by (auto simp: ws_effect_setup_def wf_terminal_def all_closed_def list_all_length
      nth_append handlers_set_def log_error_def setSocket_def fresh_socket_def)

lemma wf_setWsEndpoint: "wf_terminal t \<Longrightarrow> wf_terminal (setWsEndpoint pf v t)"
proof -
  assume wf: "wf_terminal t"
  show ?thesis
  proof (cases "mounted t \<and> v \<noteq> wsEndpoint t")
    case False
    with wf show ?thesis by (auto simp: setWsEndpoint_def)
  next
    case True
    let ?c = "(ws_effect_cleanup t)\<lparr>wsEndpoint := v\<rparr>"
    from wf_cleanup [OF wf] True
    have "list_all handlers_set (sockets ?c)" "all_closed ?c" "mounted ?c"
      by (simp_all add: wf_terminal_def all_closed_def)
    then have "wf_terminal (ws_effect_setup pf ?c)" by (rule wf_setup)
    with True show ?thesis by (simp add: setWsEndpoint_def)
  qed
qed

lemma wf_outputs_update:
  "wf_terminal (dispatch d t) = wf_terminal t"
  "wf_terminal (publish n t) = wf_terminal t"
  "wf_terminal (log_error e t) = wf_terminal t"
  by (simp_all add: wf_terminal_def dispatch_def publish_def log_error_def)

lemma wf_ws_onmessage: "wf_terminal t \<Longrightarrow> wf_terminal (ws_onmessage pf frame t)"
  by (simp add: ws_onmessage_def wf_outputs_update split: option.split sum.split)

lemma wf_deliver: "wf_terminal t \<Longrightarrow> wf_terminal (deliver pf k cb t)"
  by (simp add: deliver_def ws_onopen_def ws_onerror_def ws_onclose_def wf_outputs_update
      wf_setWsConnected wf_ws_onmessage split: ws_callback.split)

lemma wf_timers: "wf_terminal (t\<lparr>timers := ts\<rparr>) = wf_terminal t"
  by (simp add: wf_terminal_def)

lemma wf_handleConnectToggle: "wf_terminal t \<Longrightarrow> wf_terminal (handleConnectToggle pf t)"
  by (simp add: handleConnectToggle_def wf_timers wf_setWsEndpoint wf_setWsConnected
      wf_setSocket wf_close_socket split: bool.split option.split)

lemma wf_timer_fires: "wf_terminal t \<Longrightarrow> wf_terminal (timer_fires pf t)"
  by (simp add: timer_fires_def wf_timers wf_setWsEndpoint split: list.split)

lemma wf_unmount: "wf_terminal t \<Longrightarrow> wf_terminal (unmount t)"
  using wf_cleanup [of t] by (simp add: unmount_def wf_terminal_def)

lemma wf_step: "wf_terminal t \<Longrightarrow> wf_terminal (step pf t a)"
  by (cases a)
    (simp_all add: wf_setWsEndpoint wf_handleConnectToggle wf_timer_fires wf_deliver wf_unmount)

lemma wf_mount: "wf_terminal (mount pf initial_terminal)"
  unfolding mount_def
  by (rule wf_setup) (simp_all add: initial_terminal_def all_closed_def)

lemma wf_run: "wf_terminal (run pf acts)"
  unfolding run_def
  by (induction acts rule: rev_induct) (simp_all add: wf_mount wf_step)

lemma open_sockets_subset:
  assumes "wf_terminal t" and "j \<in> set (open_sockets t)"
  shows "effect_ws t = Some j"
proof -
  from assms(2) have j: "j < length (sockets t)" "close_calls (sockets t ! j) = 0"
    by (simp_all add: open_sockets_def)
  from assms(1) have "\<forall>k < length (sockets t).
      effect_ws t \<noteq> Some k \<longrightarrow> close_calls (sockets t ! k) \<noteq> 0"
    unfolding wf_terminal_def by blast
  with j show ?thesis by blast
qed

lemma open_sockets_at_most_one:
  assumes "wf_terminal t"
  shows "length (open_sockets t) \<le> 1"
proof -
  have d: "distinct (open_sockets t)" by (simp add: open_sockets_def)
  have "set (open_sockets t) \<subseteq> {k. effect_ws t = Some k}"
    using open_sockets_subset [OF assms] by blast
  moreover have "{k. effect_ws t = Some k} \<subseteq> {the (effect_ws t)}" by auto
  ultimately have "set (open_sockets t) \<subseteq> {the (effect_ws t)}" by (rule subset_trans)
  then have "card (set (open_sockets t)) \<le> card {the (effect_ws t)}"
    by (intro card_mono) simp_all
  with d show ?thesis by (simp add: distinct_card)
qed


subsection \<open>Teardown and reconnection of the socket\<close>

lemma ws_onerror_notice: "toasts (ws_onerror t) = toasts t @ [error_notice]"
  by (simp add: ws_onerror_def publish_def log_error_def setWsConnected_def)

lemma ws_onopen_notice:
  "toasts (ws_onopen k t) = toasts t @ [connected_notice (ws_url (sockets t ! k))]"
  by (simp add: ws_onopen_def publish_def setWsConnected_def)

lemma ws_onclose_notice: "toasts (ws_onclose t) = toasts t @ [disconnected_notice]"
  by (simp add: ws_onclose_def publish_def setWsConnected_def)

lemma outputs_setWsConnected [simp]:
  "toasts (setWsConnected b t) = toasts t"
  "events (setWsConnected b t) = events t"
  by (simp_all add: setWsConnected_def)

lemma outputs_setSocket [simp]:
  "toasts (setSocket v t) = toasts t"
  "events (setSocket v t) = events t"
  by (simp_all add: setSocket_def)

lemma outputs_close_socket [simp]:
  "toasts (close_socket k t) = toasts t"
  "events (close_socket k t) = events t"
  by (simp_all add: close_socket_def)

lemma cleanup_Some:
  "effect_ws t = Some k \<Longrightarrow>
     ws_effect_cleanup t
       = (setWsConnected False (setSocket None (close_socket k t)))\<lparr>effect_ws := None\<rparr>"
  by (simp add: ws_effect_cleanup_def)

lemma run_socket_handlers:
  assumes "k < length (sockets (run pf acts))"
  shows "handlers_set (sockets (run pf acts) ! k)"
proof -
  have "list_all handlers_set (sockets (run pf acts))"
    using wf_run [of pf acts] unfolding wf_terminal_def by blast
  with assms show ?thesis by (simp add: list_all_length)
qed

lemma run_effect_ws_bound:
  assumes "effect_ws (run pf acts) = Some k"
  shows "k < length (sockets (run pf acts))"
  using wf_run [of pf acts] assms unfolding wf_terminal_def by blast

text \<open>
  C5, as stated, fails: the component is mounted and unmounted; \<open>close()\<close> was called on
  its socket and nothing is published yet. The close callback of that socket, arriving
  after the teardown, publishes the notification of the disconnection, and a message
  callback would dispatch an event.
\<close>

theorem close_after_unmount_notifies_counterexample:
  "\<not> mounted (unmount (mount example_platform initial_terminal))
   \<and> close_calls (sockets (unmount (mount example_platform initial_terminal)) ! 0) = 1
   \<and> toasts (unmount (mount example_platform initial_terminal)) = []
   \<and> toasts (deliver example_platform 0 CloseCb (unmount (mount example_platform initial_terminal)))
     = [disconnected_notice]
   \<and> events (deliver example_platform 0 (MessageCb (TextFrame ''hello''))
        (unmount (mount example_platform initial_terminal)))
     = [RawMessage (TextFrame ''hello'')]"
  by code_simp

text \<open>
  C5, amended. In every state a run of the mounted component reaches with a socket of the
  effect, unmounting calls \<open>close()\<close> on that socket, leaves no socket unclosed, clears
  \<open>socket\<close> and \<open>wsConnected\<close>, and publishes nothing; the socket keeps its four handlers, so
  a callback arriving after the teardown still publishes: the close, error and open
  callbacks their notification, a message callback at least one detection event.
\<close>

theorem unmount_closes_but_handlers_stay:
  assumes "t = run pf acts" and "mounted t" and "effect_ws t = Some k"
  shows "close_calls (sockets (unmount t) ! k) = close_calls (sockets t ! k) + 1
    \<and> socket (unmount t) = None
    \<and> \<not> wsConnected (unmount t)
    \<and> open_sockets (unmount t) = []
    \<and> toasts (unmount t) = toasts t
    \<and> events (unmount t) = events t
    \<and> handlers_set (sockets (unmount t) ! k)
    \<and> toasts (deliver pf k CloseCb (unmount t)) = toasts t @ [disconnected_notice]
    \<and> toasts (deliver pf k ErrorCb (unmount t)) = toasts t @ [error_notice]
    \<and> toasts (deliver pf k OpenCb (unmount t))
        = toasts t @ [connected_notice (ws_url (sockets t ! k))]
    \<and> length (events t) < length (events (deliver pf k (MessageCb frame) (unmount t)))"
proof -
  from assms have k: "k < length (sockets t)" by (simp add: run_effect_ws_bound)
  with assms have h: "handlers_set (sockets t ! k)" by (simp add: run_socket_handlers)
  have wf: "wf_terminal t" using assms(1) by (simp add: wf_run)
  have u: "unmount t
      = (setWsConnected False (setSocket None (close_socket k t)))\<lparr>effect_ws := None, mounted := False\<rparr>"
    using assms(3) by (simp add: unmount_def cleanup_Some)
  have s: "sockets (unmount t) = sockets (close_socket k t)" by (simp add: u)
  have nk: "sockets (unmount t) ! k = (sockets t ! k)\<lparr>close_calls := close_calls (sockets t ! k) + 1\<rparr>"
    using k by (simp add: s close_socket_nth)
  have 1: "close_calls (sockets (unmount t) ! k) = close_calls (sockets t ! k) + 1"
    by (simp add: nk)
  have 2: "socket (unmount t) = None \<and> \<not> wsConnected (unmount t)"
    using assms(2) by (simp add: u setWsConnected_def setSocket_def close_socket_def)
  have "wf_terminal (unmount t)" using wf by (rule wf_unmount)
  moreover have "effect_ws (unmount t) = None" by (simp add: u)
  ultimately have 3: "open_sockets (unmount t) = []"
    using open_sockets_subset [of "unmount t"] by (cases "open_sockets (unmount t)") auto
  have 4: "toasts (unmount t) = toasts t \<and> events (unmount t) = events t"
    by (simp add: u)
  have 5: "handlers_set (sockets (unmount t) ! k)"
    using h by (simp add: nk handlers_set_def)
  have len: "k < length (sockets (unmount t))" using k by (simp add: s)
  have 6: "toasts (deliver pf k CloseCb (unmount t)) = toasts t @ [disconnected_notice]"
    using len 5 4 by (simp add: deliver_def handlers_set_def ws_onclose_notice)
  have 7: "toasts (deliver pf k ErrorCb (unmount t)) = toasts t @ [error_notice]"
    using len 5 4 by (simp add: deliver_def handlers_set_def ws_onerror_notice)
  have 9: "toasts (deliver pf k OpenCb (unmount t))
      = toasts t @ [connected_notice (ws_url (sockets t ! k))]"
    using len 5 4 by (simp add: deliver_def handlers_set_def ws_onopen_notice nk)
  have "deliver pf k (MessageCb frame) (unmount t) = ws_onmessage pf frame (unmount t)"
    using len 5 by (simp add: deliver_def handlers_set_def)
  then have 8: "length (events t) < length (events (deliver pf k (MessageCb frame) (unmount t)))"
    using ws_onmessage_events_grow [of "unmount t" pf frame] 4 by simp
  from 1 2 3 4 5 6 7 8 9 show ?thesis by blast
qed

theorem unmount_closes_but_handlers_stay_witness:
  "mounted (run example_platform [])
   \<and> effect_ws (run example_platform []) = Some 0
   \<and> close_calls (sockets (run example_platform []) ! 0) = 0
   \<and> close_calls (sockets (unmount (run example_platform [])) ! 0) = 1
   \<and> toasts (deliver example_platform 0 CloseCb (unmount (run example_platform [])))
     = [disconnected_notice]"
proof -
  have m: "mounted (run example_platform [])" by code_simp
  have e: "effect_ws (run example_platform []) = Some 0" by code_simp
  have c: "close_calls (sockets (run example_platform []) ! 0) = 0" by code_simp
  have t: "toasts (run example_platform []) = []" by code_simp
  show ?thesis
    using unmount_closes_but_handlers_stay [OF refl m e] m e c t by simp
qed

lemma setup_accepts:
  "WebSocket_accepts pf (wsEndpoint t) \<Longrightarrow> mounted t \<Longrightarrow>
     ws_effect_setup pf t
       = t\<lparr>sockets := sockets t @ [fresh_socket (wsEndpoint t)],
            effect_ws := Some (length (sockets t)),
            socket := Some (length (sockets t))\<rparr>"
  by (simp add: ws_effect_setup_def setSocket_def)

lemma setup_fields:
  "length (sockets t) \<le> length (sockets (ws_effect_setup pf t))"
  "j < length (sockets t) \<Longrightarrow> sockets (ws_effect_setup pf t) ! j = sockets t ! j"
  "toasts (ws_effect_setup pf t) = toasts t"
  "events (ws_effect_setup pf t) = events t"
  "mounted (ws_effect_setup pf t) = mounted t"
  "wsEndpoint (ws_effect_setup pf t) = wsEndpoint t"
  "timers (ws_effect_setup pf t) = timers t"
  by (simp_all add: ws_effect_setup_def setSocket_def log_error_def nth_append)

lemma cleanup_fields:
  "length (sockets (ws_effect_cleanup t)) = length (sockets t)"
  "toasts (ws_effect_cleanup t) = toasts t"
  "events (ws_effect_cleanup t) = events t"
  "mounted (ws_effect_cleanup t) = mounted t"
  "wsEndpoint (ws_effect_cleanup t) = wsEndpoint t"
  "timers (ws_effect_cleanup t) = timers t"
  by (simp_all add: ws_effect_cleanup_def setWsConnected_def setSocket_def close_socket_def
      split: option.split)

lemma setWsEndpoint_changed:
  "mounted t \<Longrightarrow> v \<noteq> wsEndpoint t \<Longrightarrow>
     setWsEndpoint pf v t = ws_effect_setup pf ((ws_effect_cleanup t)\<lparr>wsEndpoint := v\<rparr>)"
  by (simp add: setWsEndpoint_def)

lemma singleton_list:
  assumes "distinct xs" and "set xs = {n}"
  shows "xs = [n]"
proof (cases xs)
  case Nil
  with assms(2) show ?thesis by simp
next
  case (Cons a ys)
  with assms have "a = n" "set ys \<subseteq> {n}" "a \<notin> set ys" by auto
  then have "ys = []" by (cases ys) auto
  with Cons \<open>a = n\<close> show ?thesis by simp
qed

lemma open_sockets_effect:
  assumes "wf_terminal t" and "effect_ws t = Some n" and "close_calls (sockets t ! n) = 0"
  shows "open_sockets t = [n]"
proof -
  from assms(1,2) have n: "n < length (sockets t)" unfolding wf_terminal_def by blast
  with assms(3) have "n \<in> set (open_sockets t)" by (simp add: open_sockets_def)
  moreover have "\<forall>j \<in> set (open_sockets t). j = n"
    using open_sockets_subset [OF assms(1)] assms(2) by auto
  ultimately have "set (open_sockets t) = {n}" by blast
  moreover have "distinct (open_sockets t)" by (simp add: open_sockets_def)
  ultimately show ?thesis by (simp add: singleton_list)
qed

lemma run_snoc: "run pf (acts @ [a]) = step pf (run pf acts) a"
  by (simp add: run_def)

text \<open>
  C8, as stated, fails: the mounted component is connecting; the toggle calls \<open>close()\<close>
  on the attempt, and nothing is published yet. The close (or error) callback of the
  aborted attempt, arriving afterwards, publishes its notification; the timer of the
  toggle opens a second socket to the same endpoint; and once that socket is open, the
  close callback of the aborted one resets \<open>wsConnected\<close>.
\<close>

theorem toggle_while_connecting_counterexample:
  "\<not> wsConnected (run example_platform [])
   \<and> open_sockets (run example_platform []) = [0]
   \<and> open_sockets (run example_platform [Toggle]) = []
   \<and> toasts (run example_platform [Toggle]) = []
   \<and> toasts (run example_platform [Toggle, Callback 0 CloseCb]) = [disconnected_notice]
   \<and> toasts (run example_platform [Toggle, Callback 0 ErrorCb]) = [error_notice]
   \<and> open_sockets (run example_platform [Toggle, TimerFires]) = [1]
   \<and> ws_url (sockets (run example_platform [Toggle, TimerFires]) ! 1) = wsEndpoint initial_terminal
   \<and> wsConnected (run example_platform [Toggle, TimerFires, Callback 1 OpenCb])
   \<and> \<not> wsConnected (run example_platform
        [Toggle, TimerFires, Callback 1 OpenCb, Callback 0 CloseCb])"
  by code_simp

text \<open>
  C8, amended. In every state a run reaches in which the component is mounted and
  connecting (not connected, \<open>close()\<close> not yet called on the socket of the effect), with an
  endpoint the platform accepts and no timer pending: the toggle calls \<open>close()\<close> once on
  the attempt, clears the endpoint and schedules its restoration, and publishes nothing;
  the aborted socket keeps its handlers, so its close and error callbacks still publish
  their notifications; when the timer fires, a fresh socket to the same endpoint is
  created and is the only one not closed. In every run, at most one socket has not had
  \<open>close()\<close> called on it.
\<close>

theorem toggle_while_connecting_restarts:
  assumes "t = run pf acts" and "mounted t" and "\<not> wsConnected t"
    and "effect_ws t = Some k" and "close_calls (sockets t ! k) = 0"
    and "timers t = []" and "wsEndpoint t \<noteq> []" and "WebSocket_accepts pf (wsEndpoint t)"
  shows "close_calls (sockets (step pf t Toggle) ! k) = 1
    \<and> handlers_set (sockets (step pf t Toggle) ! k)
    \<and> toasts (step pf t Toggle) = toasts t
    \<and> toasts (deliver pf k CloseCb (step pf t Toggle)) = toasts t @ [disconnected_notice]
    \<and> toasts (deliver pf k ErrorCb (step pf t Toggle)) = toasts t @ [error_notice]
    \<and> wsEndpoint (step pf t Toggle) = []
    \<and> timers (step pf t Toggle) = [wsEndpoint t]
    \<and> sockets (step pf (step pf t Toggle) TimerFires) ! length (sockets (step pf t Toggle))
        = fresh_socket (wsEndpoint t)
    \<and> open_sockets (step pf (step pf t Toggle) TimerFires) = [length (sockets (step pf t Toggle))]
    \<and> wsEndpoint (step pf (step pf t Toggle) TimerFires) = wsEndpoint t
    \<and> (\<forall>others. length (open_sockets (run pf others)) \<le> 1)"
proof -
  define c where "c = (ws_effect_cleanup t)\<lparr>wsEndpoint := []\<rparr>"
  define t1 where "t1 = step pf t Toggle"
  define t2 where "t2 = step pf t1 TimerFires"
  from assms have k: "k < length (sockets t)" by (simp add: run_effect_ws_bound)
  with assms have h: "handlers_set (sockets t ! k)" by (simp add: run_socket_handlers)
  have t1: "t1 = (ws_effect_setup pf c)\<lparr>timers := [wsEndpoint t]\<rparr>"
    using assms(2,3,6,7) by (simp add: t1_def c_def handleConnectToggle_def setWsEndpoint_def)
  have ck: "sockets c ! k = (sockets t ! k)\<lparr>close_calls := 1\<rparr>"
    using assms(4,5) k by (simp add: c_def cleanup_Some close_socket_nth)
  have clen: "length (sockets c) = length (sockets t)" by (simp add: c_def cleanup_fields)
  have t1k: "sockets t1 ! k = (sockets t ! k)\<lparr>close_calls := 1\<rparr>"
    using k clen ck by (simp add: t1 setup_fields)
  have t1len: "k < length (sockets t1)"
    using k clen setup_fields(1) [of c pf] by (simp add: t1)
  have 1: "close_calls (sockets t1 ! k) = 1" by (simp add: t1k)
  have 2: "handlers_set (sockets t1 ! k)" using h by (simp add: t1k handlers_set_def)
  have 3: "toasts t1 = toasts t" by (simp add: t1 c_def setup_fields cleanup_fields)
  have 4: "toasts (deliver pf k CloseCb t1) = toasts t @ [disconnected_notice]"
    using t1len 2 3 by (simp add: deliver_def handlers_set_def ws_onclose_notice)
  have 5: "toasts (deliver pf k ErrorCb t1) = toasts t @ [error_notice]"
    using t1len 2 3 by (simp add: deliver_def handlers_set_def ws_onerror_notice)
  have 6: "wsEndpoint t1 = []" by (simp add: t1 c_def setup_fields)
  have 7: "timers t1 = [wsEndpoint t]" by (simp add: t1)
  have m1: "mounted t1" using assms(2) by (simp add: t1 c_def setup_fields cleanup_fields)
  define d where "d = (ws_effect_cleanup (t1\<lparr>timers := []\<rparr>))\<lparr>wsEndpoint := wsEndpoint t\<rparr>"
  have t2: "t2 = ws_effect_setup pf d"
    using 6 7 m1 assms(7) by (simp add: t2_def d_def timer_fires_def setWsEndpoint_def)
  have dm: "mounted d" using m1 by (simp add: d_def cleanup_fields)
  have de: "wsEndpoint d = wsEndpoint t" by (simp add: d_def)
  have dlen: "length (sockets d) = length (sockets t1)" by (simp add: d_def cleanup_fields)
  have t2': "t2 = d\<lparr>sockets := sockets d @ [fresh_socket (wsEndpoint t)],
            effect_ws := Some (length (sockets d)),
            socket := Some (length (sockets d))\<rparr>"
    unfolding t2 using setup_accepts [of pf d] assms(8) dm de by simp
  have 8: "sockets t2 ! length (sockets t1) = fresh_socket (wsEndpoint t)"
    unfolding t2' using dlen by (simp add: nth_append)
  have e2: "effect_ws t2 = Some (length (sockets t1))"
    unfolding t2' using dlen by simp
  have "t2 = run pf (acts @ [Toggle, TimerFires])"
    using assms(1) by (simp add: t2_def t1_def run_def)
  then have wf2: "wf_terminal t2" by (simp add: wf_run)
  have "close_calls (sockets t2 ! length (sockets t1)) = 0"
    by (simp add: 8 fresh_socket_def)
  with wf2 e2 have 9: "open_sockets t2 = [length (sockets t1)]"
    by (rule open_sockets_effect)
  have 10: "wsEndpoint t2 = wsEndpoint t" unfolding t2' using de by simp
  have 11: "\<forall>others. length (open_sockets (run pf others)) \<le> 1"
    using open_sockets_at_most_one [OF wf_run] by blast
  from 1 2 3 4 5 6 7 8 9 10 11 show ?thesis
    unfolding t2_def t1_def by blast
qed

theorem toggle_while_connecting_restarts_witness:
  "mounted (run example_platform [])
   \<and> \<not> wsConnected (run example_platform [])
   \<and> effect_ws (run example_platform []) = Some 0
   \<and> close_calls (sockets (run example_platform []) ! 0) = 0
   \<and> close_calls (sockets (step example_platform (run example_platform []) Toggle) ! 0) = 1
   \<and> open_sockets (step example_platform (step example_platform (run example_platform []) Toggle)
        TimerFires)
      = [length (sockets (step example_platform (run example_platform []) Toggle))]"
proof -
  have m: "mounted (run example_platform [])" by code_simp
  have c: "\<not> wsConnected (run example_platform [])" by code_simp
  have e: "effect_ws (run example_platform []) = Some 0" by code_simp
  have z: "close_calls (sockets (run example_platform []) ! 0) = 0" by code_simp
  have tm: "timers (run example_platform []) = []" by code_simp
  have n: "wsEndpoint (run example_platform []) \<noteq> []" by code_simp
  have a: "WebSocket_accepts example_platform (wsEndpoint (run example_platform []))" by code_simp
  show ?thesis
    using toggle_while_connecting_restarts [OF refl m c e z tm n a] m c e z by blast
qed


subsection \<open>Feed selection\<close>

lemma length_filter_neq_distinct:
  "distinct xs \<Longrightarrow> x \<in> set xs \<Longrightarrow> length (filter (\<lambda>y. y \<noteq> x) xs) = length xs - 1"
proof (induction xs)
  case Nil
  then show ?case by simp
next
  case (Cons a xs)
  show ?case
  proof (cases "a = x")
    case True
    with Cons.prems have "x \<notin> set xs" by simp
    then have "filter (\<lambda>y. y \<noteq> x) xs = xs" by (auto simp: filter_id_conv)
    with True show ?thesis by simp
  next
    case False
    with Cons.prems have "x \<in> set xs" "distinct xs" by auto
    with Cons.IH have "length (filter (\<lambda>y. y \<noteq> x) xs) = length xs - 1" by simp
    moreover from \<open>x \<in> set xs\<close> have "length xs \<ge> 1" by (cases xs) auto
    ultimately show ?thesis using False by simp
  qed
qed

lemma toggleFeed_feeds_ok: "feeds_ok p \<Longrightarrow> feeds_ok (toggleFeed fid p)"
  unfolding feeds_ok_def toggleFeed_def
  by (auto simp: length_filter_neq_distinct)

lemma toggles_from_mount_feeds_ok: "feeds_ok (foldl (\<lambda>p fid. toggleFeed fid p) mounted_page fids)"
proof (induction fids rule: rev_induct)
  case Nil
  show ?case by (simp add: feeds_ok_def mounted_page_def)
next
  case (snoc fid fids)
  then show ?case by (simp add: toggleFeed_feeds_ok)
qed

text \<open>
  C10. From a state with between one and five active feeds (the array holds every id
  once, as it does in every state the toggles reach from the mounted page), a call of
  \<open>toggleFeed\<close> again leaves between one and five active feeds, each once. A toggle
  that would deactivate the last active feed or activate a sixth one changes neither the
  array nor the index and publishes a destructive toast; every other toggle removes the
  id when it was active, appends it when it was not, and sets the index to 0.
\<close>

theorem toggleFeed_keeps_one_to_five:
  assumes "distinct (activeFeeds p)"
    and "1 \<le> length (activeFeeds p)"
    and "length (activeFeeds p) \<le> 5"
  shows "distinct (activeFeeds (toggleFeed fid p))
    \<and> 1 \<le> length (activeFeeds (toggleFeed fid p))
    \<and> length (activeFeeds (toggleFeed fid p)) \<le> 5
    \<and> (if deactivates_last fid p \<or> activates_sixth fid p
       then activeFeeds (toggleFeed fid p) = activeFeeds p
          \<and> currentFeedIndex (toggleFeed fid p) = currentFeedIndex p
          \<and> length (page_toasts (toggleFeed fid p)) = Suc (length (page_toasts p))
          \<and> destructive (last (page_toasts (toggleFeed fid p)))
       else currentFeedIndex (toggleFeed fid p) = 0
          \<and> page_toasts (toggleFeed fid p) = page_toasts p
          \<and> set (activeFeeds (toggleFeed fid p)) =
              (if fid \<in> set (activeFeeds p) then set (activeFeeds p) - {fid}
               else insert fid (set (activeFeeds p))))"
proof -
  from assms have ok: "feeds_ok p" by (simp add: feeds_ok_def)
  then have "feeds_ok (toggleFeed fid p)" by (rule toggleFeed_feeds_ok)
  then have bounds: "distinct (activeFeeds (toggleFeed fid p))
    \<and> 1 \<le> length (activeFeeds (toggleFeed fid p))
    \<and> length (activeFeeds (toggleFeed fid p)) \<le> 5"
    by (simp add: feeds_ok_def)
  show ?thesis
  proof (cases "deactivates_last fid p \<or> activates_sixth fid p")
    case True
    then have "activeFeeds (toggleFeed fid p) = activeFeeds p
          \<and> currentFeedIndex (toggleFeed fid p) = currentFeedIndex p
          \<and> length (page_toasts (toggleFeed fid p)) = Suc (length (page_toasts p))
          \<and> destructive (last (page_toasts (toggleFeed fid p)))"
      by (auto simp: toggleFeed_def deactivates_last_def activates_sixth_def
          cannot_deactivate_toast_def maximum_feeds_toast_def)
    with True bounds show ?thesis by simp
  next
    case False
    with assms have "currentFeedIndex (toggleFeed fid p) = 0
          \<and> page_toasts (toggleFeed fid p) = page_toasts p
          \<and> set (activeFeeds (toggleFeed fid p)) =
              (if fid \<in> set (activeFeeds p) then set (activeFeeds p) - {fid}
               else insert fid (set (activeFeeds p)))"
      by (auto simp: toggleFeed_def deactivates_last_def activates_sixth_def)
    with False bounds show ?thesis by simp
  qed
qed

theorem toggleFeed_keeps_one_to_five_witness:
  "activeFeeds (toggleFeed ''1'' mounted_page) = [''1'']
   \<and> length (page_toasts (toggleFeed ''1'' mounted_page)) = 1
   \<and> activeFeeds (toggleFeed ''2'' mounted_page) = [''1'', ''2'']
   \<and> currentFeedIndex (toggleFeed ''2'' (mounted_page\<lparr>currentFeedIndex := 3\<rparr>)) = 0
   \<and> length (activeFeeds (toggleFeed ''2'' mounted_page)) \<le> 5"
proof -
  have d: "distinct (activeFeeds mounted_page)"
    and l: "1 \<le> length (activeFeeds mounted_page)"
    and u: "length (activeFeeds mounted_page) \<le> 5"
    by (simp_all add: mounted_page_def)
  have "length (activeFeeds (toggleFeed ''2'' mounted_page)) \<le> 5"
    using toggleFeed_keeps_one_to_five [OF d l u, of "''2''"] by simp
  then show ?thesis
    by (simp add: toggleFeed_def mounted_page_def cannot_deactivate_toast_def)
qed

end
